theory Spec2Isabelle
  imports Main "HOL-Library.Char_ord" "HOL-Library.List_Lexorder"
    "HOL-Library.Product_Lexorder" "HOL-Library.Sublist"
begin

section \<open>Python string operations\<close>

text \<open>
  Texts are byte strings: a Python \<open>str\<close> is modelled by the list of the bytes of its
  UTF-8 encoding. Comparison of such lists (lexicographic, a proper prefix first) is
  Python's comparison of the strings. Whitespace is the ASCII whitespace Python's
  \<open>str.strip\<close> and the \<open>\s\<close> of \<open>re\<close> know; \<open>lower\<close> maps the ASCII capitals. Python
  also folds capitals outside ASCII and also strips white space outside ASCII (U+00A0,
  U+3000 and the like): on such text \<open>lower\<close>, \<open>strip\<close> and \<open>rstrip\<close> here leave the bytes
  as they are. The general results below hold whatever these two decide; the examples are
  ASCII apart from the meetings header.
\<close>

definition nl :: char where
  "nl = CHR 0x0A"

definition is_space :: "char \<Rightarrow> bool" where
  "is_space c = (c \<in> set [CHR '' '', CHR 0x09, CHR 0x0A, CHR 0x0B, CHR 0x0C, CHR 0x0D,
                          CHR 0x1C, CHR 0x1D, CHR 0x1E, CHR 0x1F])"

definition lower_char :: "char \<Rightarrow> char" where
  "lower_char c =
     (case map_of (zip ''ABCDEFGHIJKLMNOPQRSTUVWXYZ'' ''abcdefghijklmnopqrstuvwxyz'') c of
        None \<Rightarrow> c
      | Some l \<Rightarrow> l)"

definition lower :: "string \<Rightarrow> string" where
  "lower s = map lower_char s"

text \<open>\<open>s.startswith(p)\<close>\<close>

definition startswith :: "string \<Rightarrow> string \<Rightarrow> bool" where
  "startswith s p = prefix p s"

text \<open>\<open>sub in s\<close>\<close>

fun contains :: "string \<Rightarrow> string \<Rightarrow> bool" where
  "contains [] sub = (sub = [])"
| "contains (c # cs) sub = (prefix sub (c # cs) \<or> contains cs sub)"

text \<open>\<open>s.find(sub)\<close> and \<open>s.find(sub, i)\<close>; \<open>None\<close> is Python's \<open>-1\<close>.\<close>

fun find_sub :: "string \<Rightarrow> string \<Rightarrow> nat option" where
  "find_sub [] sub = (if sub = [] then Some 0 else None)"
| "find_sub (c # cs) sub =
     (if prefix sub (c # cs) then Some 0 else map_option Suc (find_sub cs sub))"

definition find_from :: "string \<Rightarrow> string \<Rightarrow> nat \<Rightarrow> nat option" where
  "find_from s sub i =
     (if i \<le> length s then map_option (\<lambda>k. k + i) (find_sub (drop i s) sub) else None)"

text \<open>\<open>s.strip()\<close>, \<open>s.rstrip()\<close>\<close>

definition rstrip :: "string \<Rightarrow> string" where
  "rstrip s = rev (dropWhile is_space (rev s))"

definition strip :: "string \<Rightarrow> string" where
  "strip s = rstrip (dropWhile is_space s)"

text \<open>\<open>s.split('\n')\<close> and \<open>'\n'.join(ls)\<close>\<close>

fun split_nl :: "string \<Rightarrow> string list" where
  "split_nl [] = [[]]"
| "split_nl (c # cs) =
     (if c = nl then [] # split_nl cs
      else (case split_nl cs of [] \<Rightarrow> [[c]] | l # ls \<Rightarrow> (c # l) # ls))"

fun join_nl :: "string list \<Rightarrow> string" where
  "join_nl [] = []"
| "join_nl [l] = l"
| "join_nl (l # m # ls) = l @ nl # join_nl (m # ls)"

text \<open>
  \<open>s.replace(old, new)\<close>: every occurrence of \<open>old\<close>, left to right, none overlapping
  another. With an empty \<open>old\<close> Python puts \<open>new\<close> around every character.
\<close>

fun replace_ne :: "string \<Rightarrow> string \<Rightarrow> string \<Rightarrow> string" where
  "replace_ne [] old new = []"
| "replace_ne (c # cs) old new =
     (if prefix old (c # cs) then new @ replace_ne (drop (length old - 1) cs) old new
      else c # replace_ne cs old new)"

definition replace :: "string \<Rightarrow> string \<Rightarrow> string \<Rightarrow> string" where
  "replace s old new =
     (if old = [] then new @ concat (map (\<lambda>c. c # new) s) else replace_ne s old new)"

text \<open>\<open>d.get(key, default)\<close> on a field that may be missing.\<close>

definition get_str :: "string option \<Rightarrow> string \<Rightarrow> string" where
  "get_str v d = (case v of None \<Rightarrow> d | Some s \<Rightarrow> s)"


section \<open>Calendar data\<close>

record attendee =
  email :: "string option"
  displayName :: "string option"
  self :: bool
  responseStatus :: "string option"

record attachment =
  title :: "string option"
  fileUrl :: "string option"
  fileId :: "string option"

record event_time =
  dateTime :: "string option"
  date :: "string option"

record event =
  summary :: "string option"
  eventType :: "string option"
  attendees :: "attendee list"
  attachments :: "attachment list"
  guestsCanSeeOtherGuests :: "bool option"
  guestsCanInviteOthers :: "bool option"
  start :: event_time
  finish :: event_time
  hangoutLink :: "string option"
  htmlLink :: "string option"
  description :: "string option"


section \<open>Event filter\<close>

text \<open>
  \<open>should_skip_event\<close> of \<open>skills/daily-planner/process_calendar.py\<close>. The loop over the
  attendees returns at the first one with the user's address that declined.
\<close>

definition should_skip_event :: "event \<Rightarrow> string \<Rightarrow> bool" where
  "should_skip_event ev user_email =
     (if eventType ev = Some ''workingLocation'' then True
      else if list_ex (\<lambda>a. email a = Some user_email \<and> responseStatus a = Some ''declined'')
                (attendees ev) then True
      else if attendees ev = [] then True
      else if filter (\<lambda>a. email a \<noteq> Some user_email) (attendees ev) = [] then True
      else if guestsCanSeeOtherGuests ev = Some False \<and> guestsCanInviteOthers ev = Some False
        then True
      else False)"

text \<open>
  The guards that open \<open>ObsidianDailyPlanner._create_meeting_note\<close> of the class-based
  variant: each of them returns \<open>None\<close> before anything is written.
\<close>

definition create_meeting_note_skips :: "event \<Rightarrow> bool" where
  "create_meeting_note_skips ev =
     (if get_str (eventType ev) ''default'' = ''workingLocation'' then True
      else if list_ex (\<lambda>a. self a \<and> responseStatus a = Some ''declined'') (attendees ev)
        then True
      else if attendees ev = [] then True
      else if length (filter (\<lambda>a. \<not> self a) (attendees ev)) = 0 then True
      else if guestsCanSeeOtherGuests ev = Some False \<and> guestsCanInviteOthers ev = Some False
        then True
      else False)"


section \<open>Attachment classification\<close>

text \<open>\<open>ObsidianDailyPlanner._classify_attachment\<close>: the property name and the URL.\<close>

definition classify_attachment :: "attachment \<Rightarrow> string \<times> string" where
  "classify_attachment a =
     (let t = lower (get_str (title a) ''''); url = get_str (fileUrl a) '''' in
      if contains t ''gemini'' \<or> contains t ''notes by gemini'' then
        (if contains t ''transcript'' then (''transcript'', url) else (''agenda'', url))
      else if contains t ''recording'' then (''recording'', url)
      else if contains t ''notes'' \<or> contains t ''agenda'' \<or> contains t ''1:1''
              \<or> contains t ''1-1'' then (''agenda'', url)
      else if contains t ''minutes'' \<or> contains t ''summary'' \<or> contains t ''recap''
        then (''minutes'', url)
      else (''agenda'', url))"

text \<open>
  The function variant (\<open>create_meeting_note\<close>) sorts every attachment into one of six
  lists. \<open>get_drive_file_info\<close> asks an external service: it is a parameter here, \<open>None\<close>
  when the call fails or answers with nothing (an empty mapping is falsy in Python).
\<close>

datatype category = Agenda | Minutes | Recording | Gemini | Slides | Other

record drive_file =
  name :: "string option"
  mimeType :: "string option"
  webViewLink :: "string option"

definition classify_drive :: "drive_file \<Rightarrow> string \<Rightarrow> category \<times> string" where
  "classify_drive df file_url =
     (let n = lower (get_str (name df) '''');
          mime_type = get_str (mimeType df) '''';
          web_view_link = get_str (webViewLink df) file_url in
      if contains n ''gemini'' then (Gemini, web_view_link)
      else if contains n ''recording'' then (Recording, web_view_link)
      else if contains n ''minutes'' \<or> contains n ''summary'' \<or> contains n ''recap''
        then (Minutes, web_view_link)
      else if mime_type = ''application/vnd.google-apps.presentation'' \<or> contains n ''slides''
              \<or> contains n ''presentation'' \<or> contains n ''deck'' then (Slides, web_view_link)
      else if contains n ''notes'' \<or> contains n ''agenda'' \<or> contains n ''1:1''
              \<or> contains n ''1-1'' then (Agenda, web_view_link)
      else (Other, web_view_link))"

definition classify_title :: "string \<Rightarrow> string \<Rightarrow> category \<times> string" where
  "classify_title raw_title file_url =
     (let t = lower raw_title in
      if contains t ''transcript'' \<or> contains file_url ''gemini'' then (Gemini, file_url)
      else if contains t ''recording'' then (Recording, file_url)
      else if contains t ''minutes'' \<or> contains t ''summary'' \<or> contains t ''recap''
        then (Minutes, file_url)
      else if contains t ''notes'' \<or> contains t ''agenda'' \<or> contains t ''1:1''
              \<or> contains t ''1-1'' then (Agenda, file_url)
      else if contains file_url ''docs.google.com'' then (Agenda, file_url)
      else (Other, file_url))"

definition classify_event_attachment ::
  "(string \<Rightarrow> drive_file option) \<Rightarrow> attachment \<Rightarrow> category \<times> string" where
  "classify_event_attachment get_drive_file_info a =
     (let file_url = get_str (fileUrl a) '''';
          file_id = get_str (fileId a) '''';
          drive = (if file_id \<noteq> [] then get_drive_file_info file_id else None) in
      case drive of
        Some df \<Rightarrow> classify_drive df file_url
      | None \<Rightarrow> classify_title (get_str (title a) '''') file_url)"


section \<open>Token translator\<close>

text \<open>
  \<open>MOMENT_TO_STRFTIME\<close> of \<open>obsidian_date_formatter.py\<close>, in the order the dictionary is
  written (Python dictionaries keep it).
\<close>

definition MOMENT_TO_STRFTIME :: "(string \<times> string) list" where
  "MOMENT_TO_STRFTIME =
     [(''YYYY'', ''%Y''), (''YY'', ''%y''), (''MMMM'', ''%B''), (''MMM'', ''%b''),
      (''MM'', ''%m''), (''M'', ''%-m''), (''DDDD'', ''%j''), (''DD'', ''%d''),
      (''D'', ''%-d''), (''dddd'', ''%A''), (''ddd'', ''%a''), (''dd'', ''%a''),
      (''d'', ''%w''), (''HH'', ''%H''), (''H'', ''%-H''), (''hh'', ''%I''),
      (''h'', ''%-I''), (''mm'', ''%M''), (''m'', ''%-M''), (''ss'', ''%S''),
      (''s'', ''%-S''), (''A'', ''%p''), (''a'', ''%p'')]"

text \<open>\<open>str(n)\<close> of a counter, in decimal.\<close>

definition digit_char :: "nat \<Rightarrow> char" where
  "digit_char d = ''0123456789'' ! d"

fun str_nat :: "nat \<Rightarrow> string" where
  "str_nat n =
     (if n < 10 then [digit_char n] else str_nat (n div 10) @ [digit_char (n mod 10)])"

declare str_nat.simps [simp del]

text \<open>The placeholder \<open>f"\x00{placeholder_counter}\x00"\<close>.\<close>

definition placeholder :: "nat \<Rightarrow> string" where
  "placeholder n = CHR 0x00 # str_nat n @ [CHR 0x00]"

text \<open>
  \<open>sorted(MOMENT_TO_STRFTIME.keys(), key=len, reverse=True)\<close>: Python's sort is stable
  also when reversed, so tokens of one length keep the order of the table. Each key is
  kept with its value here, which is what the loop looks up.
\<close>

definition tokens_longest_first :: "(string \<times> string) list" where
  "tokens_longest_first = sort_key (\<lambda>kv. - int (length (fst kv))) MOMENT_TO_STRFTIME"

text \<open>
  One round of the first loop; the state is \<open>result\<close>, \<open>placeholder_map\<close> (in insertion
  order) and \<open>placeholder_counter\<close>.
\<close>

definition protect_token ::
  "string \<times> (string \<times> string) list \<times> nat \<Rightarrow> string \<times> string
     \<Rightarrow> string \<times> (string \<times> string) list \<times> nat" where
  "protect_token st kv =
     (case st of (result, placeholder_map, placeholder_counter) \<Rightarrow>
        if contains result (fst kv)
        then (replace result (fst kv) (placeholder placeholder_counter),
              placeholder_map @ [(placeholder placeholder_counter, snd kv)],
              placeholder_counter + 1)
        else st)"

definition convert_moment_to_strftime :: "string \<Rightarrow> string" where
  "convert_moment_to_strftime moment_format =
     (case foldl protect_token (moment_format, [], 0) tokens_longest_first of
        (result, placeholder_map, n) \<Rightarrow>
          foldl (\<lambda>r pc. replace r (fst pc) (snd pc)) result placeholder_map)"

text \<open>
  The host's \<open>strftime\<close> is Python's, not this repository's. What the paths of the
  planner need of it is modelled after the pure-Python \<open>datetime\<close>: the proleptic
  Gregorian ordinal of a date, its weekday, and the directives \<open>%Y %m %d %B %A\<close> in the C
  locale; every other character is copied.
\<close>

record date_rec =
  year :: nat
  month :: nat
  day :: nat

definition is_leap :: "nat \<Rightarrow> bool" where
  "is_leap y = (y mod 4 = 0 \<and> (y mod 100 \<noteq> 0 \<or> y mod 400 = 0))"

definition days_before_year :: "nat \<Rightarrow> nat" where
  "days_before_year y = (y - 1) * 365 + (y - 1) div 4 - (y - 1) div 100 + (y - 1) div 400"

definition days_before_month :: "nat \<Rightarrow> nat \<Rightarrow> nat" where
  "days_before_month y m =
     sum_list (take (m - 1) [31, 28, 31, 30, 31, 30, 31, 31, 30, 31, 30, 31])
       + (if m > 2 \<and> is_leap y then 1 else 0)"

definition toordinal :: "date_rec \<Rightarrow> nat" where
  "toordinal d = days_before_year (year d) + days_before_month (year d) (month d) + day d"

definition weekday :: "date_rec \<Rightarrow> nat" where
  "weekday d = (toordinal d + 6) mod 7"

definition month_names :: "string list" where
  "month_names = [''January'', ''February'', ''March'', ''April'', ''May'', ''June'', ''July'',
     ''August'', ''September'', ''October'', ''November'', ''December'']"

definition day_names :: "string list" where
  "day_names = [''Monday'', ''Tuesday'', ''Wednesday'', ''Thursday'', ''Friday'', ''Saturday'',
     ''Sunday'']"

definition zero_pad :: "nat \<Rightarrow> nat \<Rightarrow> string" where
  "zero_pad w n = replicate (w - length (str_nat n)) CHR ''0'' @ str_nat n"

fun strftime :: "date_rec \<Rightarrow> string \<Rightarrow> string" where
  "strftime d [] = []"
| "strftime d [c] = [c]"
| "strftime d (c # e # cs) =
     (if c = CHR ''%'' \<and> e = CHR ''Y'' then zero_pad 4 (year d) @ strftime d cs
      else if c = CHR ''%'' \<and> e = CHR ''m'' then zero_pad 2 (month d) @ strftime d cs
      else if c = CHR ''%'' \<and> e = CHR ''d'' then zero_pad 2 (day d) @ strftime d cs
      else if c = CHR ''%'' \<and> e = CHR ''B'' then month_names ! (month d - 1) @ strftime d cs
      else if c = CHR ''%'' \<and> e = CHR ''A'' then day_names ! weekday d @ strftime d cs
      else c # strftime d (e # cs))"

declare strftime.simps [simp del]


section \<open>Attendee resolution\<close>

text \<open>A name as the notes write it: a quoted wikilink, or quoted plain text.\<close>

definition quoted_link :: "string \<Rightarrow> string" where
  "quoted_link n = CHR 0x22 # ''[['' @ n @ '']]'' @ [CHR 0x22]"

definition quoted_text :: "string \<Rightarrow> string" where
  "quoted_text n = CHR 0x22 # n @ [CHR 0x22]"

text \<open>\<open>email.split('@')[0]\<close>\<close>

definition local_part :: "string \<Rightarrow> string" where
  "local_part e = takeWhile (\<lambda>c. c \<noteq> CHR ''@'') e"

text \<open>
  \<open>ObsidianDailyPlanner._match_attendee\<close>. \<open>people_map\<close> is the dictionary built at start-up.
  The directory search is a parameter: \<open>gog e\<close> is the \<open>name\<close> of the first person found
  for the address (\<open>Some []\<close> when that person has none), \<open>None\<close> when the call fails in any
  way, exits with an error, cannot be parsed or finds nobody; the \<open>except\<close> of the source
  turns every failure into that.
\<close>

definition match_attendee ::
  "(string \<rightharpoonup> string) \<Rightarrow> (string \<Rightarrow> string option) \<Rightarrow> attendee \<Rightarrow> string \<times> bool" where
  "match_attendee people_map gog a =
     (let em = get_str (email a) ''''; display_name = get_str (displayName a) '''' in
      case people_map em of
        Some n \<Rightarrow> (n, True)
      | None \<Rightarrow>
         (case (if display_name \<noteq> [] then people_map (lower display_name) else None) of
            Some n \<Rightarrow> (n, True)
          | None \<Rightarrow>
             (let full_name =
                    (if em \<noteq> [] then (case gog em of None \<Rightarrow> [] | Some n \<Rightarrow> strip n) else [])
              in case (if full_name \<noteq> [] then people_map (lower full_name) else None) of
                   Some n \<Rightarrow> (n, True)
                 | None \<Rightarrow>
                     if full_name \<noteq> [] then (full_name, False)
                     else if display_name \<noteq> [] then (display_name, False)
                     else if em \<noteq> [] then (local_part em, False)
                     else (''Unknown'', False))))"

text \<open>How \<open>_create_meeting_note\<close> writes the result into the note.\<close>

definition attendee_entry :: "string \<times> bool \<Rightarrow> string" where
  "attendee_entry r = (if snd r then quoted_link (fst r) else quoted_text (fst r))"

text \<open>
  \<open>match_attendee_to_person\<close> of the function variant. Its three look-ups are parameters:
  \<open>grep_mail e\<close> is the stem of the first People file that holds \<open>mail: e\<close>, \<open>person_file n\<close>
  says whether \<open>PEOPLE/n.md\<close> exists, \<open>gog e\<close> is the \<open>name\<close> of the first person the
  directory finds; \<open>None\<close> stands for every failure the source catches.
\<close>

definition match_attendee_to_person ::
  "(string \<Rightarrow> string option) \<Rightarrow> (string \<Rightarrow> bool) \<Rightarrow> (string \<Rightarrow> string option)
     \<Rightarrow> string \<Rightarrow> string \<Rightarrow> string" where
  "match_attendee_to_person grep_mail person_file gog em display_name =
     (case (if em \<noteq> [] then grep_mail em else None) of
        Some person_name \<Rightarrow> quoted_link person_name
      | None \<Rightarrow>
          if display_name \<noteq> [] \<and> person_file display_name then quoted_link display_name
          else (case (if em \<noteq> [] then gog em else None) of
                  Some full_name \<Rightarrow>
                    if full_name \<noteq> [] then quoted_link full_name else quoted_link display_name
                | None \<Rightarrow> quoted_link display_name))"

text \<open>
  The call in \<open>create_meeting_note\<close>:
  \<open>display_name = attendee.get('displayName') or email.split('@')[0]\<close>.
\<close>

definition attendee_link ::
  "(string \<Rightarrow> string option) \<Rightarrow> (string \<Rightarrow> bool) \<Rightarrow> (string \<Rightarrow> string option)
     \<Rightarrow> attendee \<Rightarrow> string" where
  "attendee_link grep_mail person_file gog a =
     (let em = get_str (email a) '''';
          display_name = (if get_str (displayName a) '''' \<noteq> [] then get_str (displayName a) ''''
                          else local_part em)
      in match_attendee_to_person grep_mail person_file gog em display_name)"


section \<open>Daily note merge, function variant\<close>

definition meetings_header :: string where
  "meetings_header = ''# '' @ [CHR 0xF0, CHR 0x9F, CHR 0x93, CHR 0x85] @ '' Meetings''"

text \<open>\<open>Path.stem\<close>: the last component without its last suffix.\<close>

definition path_name :: "string \<Rightarrow> string" where
  "path_name p = rev (takeWhile (\<lambda>c. c \<noteq> CHR ''/'') (rev p))"

definition path_stem :: "string \<Rightarrow> string" where
  "path_stem p =
     (let n = path_name p; ext = length (takeWhile (\<lambda>c. c \<noteq> CHR ''.'') (rev n)) in
      if ext < length n - 1 \<and> 0 < ext then take (length n - ext - 1) n else n)"

definition link_of_stem :: "string \<Rightarrow> string" where
  "link_of_stem stem = ''- [['' @ stem @ '']]''"

text \<open>\<open>link.strip()[4:-2]\<close>\<close>

definition stem_of_link :: "string \<Rightarrow> string" where
  "stem_of_link link = (let s = strip link in drop 4 (take (length s - 2) s))"

text \<open>A loop that appends what is not yet in the list.\<close>

definition append_new :: "'a list \<Rightarrow> 'a \<Rightarrow> 'a list" where
  "append_new xs x = (if x \<in> set xs then xs else xs @ [x])"

definition new_meeting_links :: "(string \<times> string) list \<Rightarrow> string list" where
  "new_meeting_links meeting_files =
     foldl append_new [] (map (\<lambda>m. link_of_stem (path_stem (snd m))) (sort_key fst meeting_files))"

record scan_state =
  in_list :: bool
  list_ended :: bool
  existing_links :: "string list"
  before_list :: "string list"
  after_list :: "string list"

definition scan_start :: scan_state where
  "scan_start = \<lparr>in_list = False, list_ended = False, existing_links = [], before_list = [],
     after_list = []\<rparr>"

definition scan_line :: "scan_state \<Rightarrow> string \<Rightarrow> scan_state" where
  "scan_line st line =
     (if startswith (strip line) ''- [['' \<and> \<not> list_ended st
        then st\<lparr>in_list := True, existing_links := List.insert (strip line) (existing_links st)\<rparr>
      else if in_list st \<and> strip line \<noteq> [] \<and> \<not> startswith (strip line) ''- [[''
        then st\<lparr>list_ended := True, after_list := after_list st @ [line]\<rparr>
      else if list_ended st then st\<lparr>after_list := after_list st @ [line]\<rparr>
      else if \<not> in_list st \<and> strip line \<noteq> [] then st\<lparr>before_list := before_list st @ [line]\<rparr>
      else if \<not> in_list st then st\<lparr>before_list := before_list st @ [line]\<rparr>
      else st)"

text \<open>The test that makes a line of the section a list item.\<close>

definition link_shaped :: "string \<Rightarrow> bool" where
  "link_shaped line = startswith (strip line) ''- [[''"

text \<open>\<open>line.split('start:')[1]\<close> of a line that starts with \<open>start:\<close>.\<close>

definition after_start :: "string \<Rightarrow> string" where
  "after_start line =
     (let r = drop 6 line in case find_sub r ''start:'' of None \<Rightarrow> r | Some k \<Rightarrow> take k r)"

definition get_meeting_start_time :: "string option \<Rightarrow> string" where
  "get_meeting_start_time file =
     (case file of
        None \<Rightarrow> []
      | Some content \<Rightarrow>
          (case filter (\<lambda>line. startswith line ''start:'') (split_nl content) of
             [] \<Rightarrow> []
           | line # _ \<Rightarrow> strip (after_start line)))"

text \<open>
  The merged list. \<open>existing_links\<close> and \<open>all_meeting_stems\<close> are Python sets, kept here as
  lists without repetition. The order in which Python visits a set is not fixed;
  \<open>sorted(meeting_times)\<close> makes the result independent of it, since the pairs of start
  time and link are all different. \<open>find_note stem\<close> is the text of the first file that
  \<open>rglob\<close> finds for the stem, \<open>None\<close> when it finds none.
\<close>

definition all_links :: "(string \<Rightarrow> string option) \<Rightarrow> string list \<Rightarrow> string list \<Rightarrow> string list" where
  "all_links find_note existing new_links =
     (let all_meeting_stems = remdups (map stem_of_link existing @ map stem_of_link new_links);
          meeting_times =
            map (\<lambda>stem. (get_meeting_start_time (find_note stem), link_of_stem stem))
              all_meeting_stems
      in map snd (sort meeting_times))"

definition update_daily_note_content ::
  "(string \<Rightarrow> string option) \<Rightarrow> (string \<times> string) list \<Rightarrow> string \<Rightarrow> string" where
  "update_daily_note_content find_note meeting_files content =
     (case find_sub content meetings_header of
        Some start_idx \<Rightarrow>
          (let end_idx = (case find_from content [nl, CHR ''#''] (start_idx + 1) of
                            None \<Rightarrow> length content | Some e \<Rightarrow> e);
               section_content = take (end_idx - start_idx) (drop start_idx content)
           in case split_nl section_content of
                [] \<Rightarrow> content
              | header # lines \<Rightarrow>
                  (let st = foldl scan_line scan_start lines;
                       new_section_lines =
                         [header] @ (if before_list st \<noteq> [] then before_list st else [[]])
                         @ all_links find_note (existing_links st) (new_meeting_links meeting_files)
                         @ after_list st
                   in take start_idx content @ join_nl new_section_lines @ drop end_idx content))
      | None \<Rightarrow>
          rstrip content @ [nl, nl] @ meetings_header @ [nl, nl]
            @ join_nl (new_meeting_links meeting_files) @ [nl])"


section \<open>Daily note merge, class-based variant\<close>

text \<open>
  The header as \<open>obsidian-productivity/skills/daily-planner/process_calendar.py\<close> holds it,
  in its pattern and in the two headers it writes: between \<open>#\<close> and \<open>Meetings\<close> the file has
  the ten bytes \<open>C4 9F C5 B8 E2 80 9C E2 80 A6\<close>, not the four of the calendar sign that the
  function variant writes. A section that one variant wrote is no section for the other.
\<close>

definition planner_meetings_header :: string where
  "planner_meetings_header =
     ''# '' @ [CHR 0xC4, CHR 0x9F, CHR 0xC5, CHR 0xB8, CHR 0xE2, CHR 0x80, CHR 0x9C, CHR 0xE2,
              CHR 0x80, CHR 0xA6] @ '' Meetings''"

text \<open>
  The regular expressions of \<open>create_daily_note\<close>, written out. \<open>find_close r\<close> is what the
  lazy \<open>.*?\]\]\<close> consumes before the closing brackets: the place of the first \<open>]]\<close>
  with no line break before it.
\<close>

fun find_close :: "string \<Rightarrow> nat option" where
  "find_close [] = None"
| "find_close (c # cs) =
     (if prefix '']]'' (c # cs) then Some 0
      else if c = nl then None
      else map_option Suc (find_close cs))"

text \<open>One \<open>- \[\[.*?\]\]\n?\<close> at the head of the text: how many characters it takes.\<close>

definition match_item :: "string \<Rightarrow> nat option" where
  "match_item s =
     (if prefix ''- [['' s then
        (case find_close (drop 4 s) of
           None \<Rightarrow> None
         | Some k \<Rightarrow> Some (if prefix [nl] (drop (k + 6) s) then k + 7 else k + 6))
      else None)"

text \<open>
  \<open>(?:- \[\[.*?\]\]\n?)*\<close>: items are taken as long as one matches; nothing follows the
  group in the pattern, so the first (longest) run is the match. The result is its length.
\<close>

function match_items :: "string \<Rightarrow> nat" where
  "match_items s = (case match_item s of None \<Rightarrow> 0 | Some n \<Rightarrow> n + match_items (drop n s))"
  by pat_completeness auto
termination
proof (relation "measure length")
  fix s n
  assume "match_item s = Some n"
  then have "prefix ''- [['' s" and "0 < n"
    by (auto simp: match_item_def split: if_splits option.splits)
  then have "s \<noteq> []" and "0 < n"
    by auto
  then show "(drop n s, s) \<in> measure length"
    by simp
qed simp

declare match_items.simps [simp del]

text \<open>
  The pattern at one place: the header, then \<open>\s*\n\<close> (the white space after the header
  must hold a line break, and the greedy \<open>\s*\<close> gives back all that follows the last
  one), then the items. The result is the span of group 1, counted from that place.
\<close>

definition match_section :: "string \<Rightarrow> (nat \<times> nat) option" where
  "match_section s =
     (if prefix planner_meetings_header s then
        (let r = drop (length planner_meetings_header) s;
             ws = takeWhile is_space r in
         if nl \<in> set ws then
           (let g = length planner_meetings_header
                    + (length ws - length (takeWhile (\<lambda>c. c \<noteq> nl) (rev ws)))
            in Some (g, g + match_items (drop g s)))
         else None)
      else None)"

text \<open>
  \<open>re.search\<close> with \<open>re.MULTILINE\<close>: the first place at the start of a line where the
  pattern matches. \<open>bol\<close> says whether the text begins a line.
\<close>

fun search_section :: "bool \<Rightarrow> string \<Rightarrow> (nat \<times> nat) option" where
  "search_section bol [] = None"
| "search_section bol (c # cs) =
     (case (if bol then match_section (c # cs) else None) of
        Some span \<Rightarrow> Some span
      | None \<Rightarrow> map_option (\<lambda>span. (Suc (fst span), Suc (snd span))) (search_section (c = nl) cs))"

text \<open>\<open>re.findall(r'- (\[\[.*?\]\])', text)\<close>\<close>

fun findall_links :: "string \<Rightarrow> string list" where
  "findall_links [] = []"
| "findall_links (c # cs) =
     (if prefix ''- [['' (c # cs) then
        (case find_close (drop 3 cs) of
           None \<Rightarrow> findall_links cs
         | Some k \<Rightarrow> (''[['' @ take k (drop 3 cs) @ '']]'') # findall_links (drop (k + 5) cs))
      else findall_links cs)"

text \<open>The loop over \<open>all_entries\<close> that keeps the first entry of every link.\<close>

definition keep_first :: "(string \<times> string) list \<Rightarrow> (string \<times> string) \<Rightarrow> (string \<times> string) list" where
  "keep_first unique_entries e =
     (if snd e \<in> snd ` set unique_entries then unique_entries else unique_entries @ [e])"

definition list_items :: "(string \<times> string) list \<Rightarrow> string list" where
  "list_items entries = map (\<lambda>e. ''- '' @ snd e) entries"

text \<open>
  \<open>create_daily_note\<close> on the text of the daily note (\<open>None\<close> when the file does not exist).
  \<open>start_time_of\<close> stands for \<open>_get_meeting_start_time\<close>, which reads the vault;
  \<open>new_note_text\<close> is the text a new daily note starts with, up to and with the blank line
  after the meetings header.
\<close>

definition create_daily_note ::
  "(string \<Rightarrow> string) \<Rightarrow> string \<Rightarrow> string option \<Rightarrow> (string \<times> string) list \<Rightarrow> string" where
  "create_daily_note start_time_of new_note_text file meeting_entries =
     (case file of
        Some content \<Rightarrow>
          (case search_section True content of
             Some (s, e) \<Rightarrow>
               (let existing_links = findall_links (take (e - s) (drop s content));
                    existing_entries = map (\<lambda>link. (start_time_of link, link)) existing_links;
                    all_entries = existing_entries @ meeting_entries;
                    unique_entries = sort_key fst (foldl keep_first [] all_entries);
                    new_links_text = join_nl (list_items unique_entries)
                in take s content @ new_links_text @ [nl] @ drop e content)
           | None \<Rightarrow>
               content @ [nl] @ planner_meetings_header @ [nl, nl]
                 @ join_nl (list_items (sort_key fst meeting_entries)) @ [nl])
      | None \<Rightarrow> new_note_text @ concat (map (\<lambda>e. ''- '' @ snd e @ [nl]) meeting_entries))"


section \<open>The run of the function variant\<close>

text \<open>
  What the run takes from outside the repository is a record of parameters: the two
  date parsers of Python (\<open>None\<close> is their \<open>ValueError\<close>), the text of a new note (it
  holds the clock and the answers of the look-ups), \<open>Path.rglob\<close> on the notes folder
  (the first path found for a stem), the body of the daily-note template and the clock.
\<close>

record host =
  fromisoformat :: "string \<Rightarrow> date_rec option"
  strptime :: "string \<Rightarrow> date_rec option"
  render_note :: "event \<Rightarrow> string"
  rglob :: "(string \<rightharpoonup> string) \<Rightarrow> string \<Rightarrow> string option"
  daily_template :: string
  now :: string

datatype error = NoStartDate "string option" | BadStartDate string

datatype log_line =
    Processing string
  | Created string
  | AlreadyExists string
  | Failed error
  | UpdatedDaily string

text \<open>\<open>re.sub(r'\s+', ' ', title)\<close>\<close>

function collapse_spaces :: "string \<Rightarrow> string" where
  "collapse_spaces [] = []"
| "collapse_spaces (c # cs) =
     (if is_space c then CHR '' '' # collapse_spaces (dropWhile is_space cs)
      else c # collapse_spaces cs)"
  by pat_completeness auto
termination
  by (relation "measure length") (auto simp: less_Suc_eq_le length_dropWhile_le)

definition sanitize_title :: "string \<Rightarrow> string" where
  "sanitize_title t =
     (let t1 = replace (replace (replace t ''/'' '' - '') '':'' '' - '') ''|'' '' - '';
          t2 = filter (\<lambda>c. c \<notin> set ([CHR 0x22, CHR 0x5C] @ ''<>:|?*'')) t1
      in strip (collapse_spaces t2))"

definition event_date_str :: "event \<Rightarrow> string option" where
  "event_date_str ev =
     (case dateTime (start ev) of
        Some s \<Rightarrow> if s \<noteq> [] then Some s else date (start ev)
      | None \<Rightarrow> date (start ev))"

definition get_meeting_file_path :: "host \<Rightarrow> event \<Rightarrow> error + string" where
  "get_meeting_file_path h ev =
     (case event_date_str ev of
        None \<Rightarrow> Inl (NoStartDate (summary ev))
      | Some date_str \<Rightarrow>
          if date_str = [] then Inl (NoStartDate (summary ev))
          else
            (case (if contains date_str ''T''
                   then fromisoformat h (replace date_str ''Z'' ''+00:00'')
                   else strptime h date_str) of
               None \<Rightarrow> Inl (BadStartDate date_str)
             | Some dt \<Rightarrow>
                 Inr (''MEETINGS/'' @ strftime dt ''%Y'' @ ''/'' @ strftime dt ''%m'' @ ''-''
                      @ strftime dt ''%B'' @ ''/'' @ strftime dt ''%Y-%m-%d'' @ '' - ''
                      @ sanitize_title (get_str (summary ev) ''Untitled'') @ ''.md'')))"

text \<open>
  \<open>create_meeting_note\<close>: the path first (the only step that raises), then the text, then
  the file unless it is there already. The result is the pair for the daily note, the
  files and the line printed.
\<close>

definition create_meeting_note ::
  "host \<Rightarrow> event \<Rightarrow> (string \<rightharpoonup> string)
     \<Rightarrow> error + ((string \<times> string) \<times> (string \<rightharpoonup> string) \<times> log_line)" where
  "create_meeting_note h ev fs =
     (case get_meeting_file_path h ev of
        Inl e \<Rightarrow> Inl e
      | Inr meeting_file \<Rightarrow>
          (let start_dt = get_str (dateTime (start ev)) '''' in
           if fs meeting_file \<noteq> None
           then Inr ((start_dt, meeting_file), fs, AlreadyExists (path_name meeting_file))
           else Inr ((start_dt, meeting_file), fs(meeting_file \<mapsto> render_note h ev),
                     Created (path_name meeting_file))))"

definition daily_note_path :: "date_rec \<Rightarrow> string" where
  "daily_note_path d =
     ''DAILY_NOTES/'' @ strftime d ''%Y'' @ ''/'' @ strftime d ''%m'' @ ''-'' @ strftime d ''%B''
       @ ''/'' @ strftime d ''%Y-%m-%d'' @ '' '' @ strftime d ''%A'' @ ''.md''"

definition load_daily_note_template :: "host \<Rightarrow> string" where
  "load_daily_note_template h =
     (if daily_template h \<noteq> [] then daily_template h else meetings_header @ [nl, nl])"

definition update_daily_note ::
  "host \<Rightarrow> (string \<times> string) list \<Rightarrow> date_rec \<Rightarrow> (string \<rightharpoonup> string) \<Rightarrow> (string \<rightharpoonup> string)" where
  "update_daily_note h meeting_files target_date fs =
     (let daily_note_file = daily_note_path target_date;
          content =
            (case fs daily_note_file of
               Some c \<Rightarrow> c
             | None \<Rightarrow> ''---'' @ [nl] @ ''created: '' @ now h @ [nl] @ ''tags:'' @ [nl]
                        @ ''  - Daily_Notes'' @ [nl] @ ''---'' @ [nl, nl]
                        @ load_daily_note_template h);
          find_note = (\<lambda>stem. case rglob h fs stem of None \<Rightarrow> None | Some p \<Rightarrow> fs p)
      in fs(daily_note_file \<mapsto> update_daily_note_content find_note meeting_files content))"

record run_state =
  files :: "string \<rightharpoonup> string"
  meeting_files :: "(string \<times> string) list"
  skipped_count :: nat
  log :: "log_line list"

text \<open>One round of the loop of \<open>main\<close>, with its \<open>try\<close> and \<open>except\<close>.\<close>

definition process_event :: "host \<Rightarrow> run_state \<Rightarrow> event \<Rightarrow> run_state" where
  "process_event h st ev =
     (if should_skip_event ev ''jlaska@redhat.com''
      then st\<lparr>skipped_count := skipped_count st + 1\<rparr>
      else
        (case create_meeting_note h ev (files st) of
           Inl e \<Rightarrow> st\<lparr>log := log st @ [Processing (get_str (summary ev) ''Untitled''), Failed e]\<rparr>
         | Inr (result, fs, line) \<Rightarrow>
             st\<lparr>files := fs, meeting_files := meeting_files st @ [result],
                log := log st @ [Processing (get_str (summary ev) ''Untitled''), line]\<rparr>))"

definition main :: "host \<Rightarrow> event list \<Rightarrow> date_rec \<Rightarrow> (string \<rightharpoonup> string) \<Rightarrow> run_state" where
  "main h events target_date fs =
     (let st = foldl (process_event h)
                 \<lparr>files = fs, meeting_files = [], skipped_count = 0, log = []\<rparr> events
      in if meeting_files st \<noteq> []
         then st\<lparr>files := update_daily_note h (meeting_files st) target_date (files st),
                 log := log st @ [UpdatedDaily (path_name (daily_note_path target_date))]\<rparr>
         else st)"


text \<open>
  An event has no usable start date when \<open>dateTime\<close> and \<open>date\<close> are both missing or
  empty, or when Python's parser refuses the text.
\<close>

definition unusable_start :: "host \<Rightarrow> event \<Rightarrow> bool" where
  "unusable_start h ev =
     (case event_date_str ev of
        None \<Rightarrow> True
      | Some d \<Rightarrow>
          d = [] \<or> (if contains d ''T'' then fromisoformat h (replace d ''Z'' ''+00:00'') = None
                    else strptime h d = None))"

text \<open>Two states of a run with the same files and the same pairs for the daily note.\<close>

definition same_outcome :: "run_state \<Rightarrow> run_state \<Rightarrow> bool" where
  "same_outcome a b = (files a = files b \<and> meeting_files a = meeting_files b)"


section \<open>The run of the class-based variant\<close>

definition planner_sanitize_filename :: "string \<Rightarrow> string" where
  "planner_sanitize_filename t =
     strip (collapse_spaces
       (replace (replace (replace t ''/'' '' - '') '':'' '' - '') ''|'' '' - ''))"

text \<open>
  \<open>_create_meeting_note\<close>: the wikilink of the note, \<open>None\<close> for an event that is no
  meeting. \<open>date_str\<close> is the date of the run and \<open>dt\<close> what \<open>strptime\<close> made of it.
\<close>

definition planner_create_meeting_note ::
  "host \<Rightarrow> string \<Rightarrow> date_rec \<Rightarrow> event \<Rightarrow> (string \<rightharpoonup> string)
     \<Rightarrow> string option \<times> (string \<rightharpoonup> string)" where
  "planner_create_meeting_note h date_str dt ev fs =
     (if create_meeting_note_skips ev then (None, fs)
      else
        (let sanitized_title = planner_sanitize_filename (get_str (summary ev) ''Untitled Meeting'');
             filename = date_str @ '' - '' @ sanitized_title @ ''.md'';
             meeting_file = ''MEETINGS/'' @ strftime dt ''%Y'' @ ''/'' @ strftime dt ''%m-%B''
                            @ ''/'' @ filename;
             link = ''[['' @ date_str @ '' - '' @ sanitized_title @ '']]''
         in if fs meeting_file \<noteq> None then (Some link, fs)
            else (Some link, fs(meeting_file \<mapsto> render_note h ev))))"

definition get_sort_key :: "event \<Rightarrow> string" where
  "get_sort_key ev =
     (case dateTime (start ev) of
        Some s \<Rightarrow> s
      | None \<Rightarrow> (case date (start ev) of Some d \<Rightarrow> d @ ''T00:00:00'' | None \<Rightarrow> []))"

definition collect_entry ::
  "host \<Rightarrow> string \<Rightarrow> date_rec \<Rightarrow> (string \<times> string) list \<times> (string \<rightharpoonup> string) \<Rightarrow> event
     \<Rightarrow> (string \<times> string) list \<times> (string \<rightharpoonup> string)" where
  "collect_entry h date_str dt acc ev =
     (case planner_create_meeting_note h date_str dt ev (snd acc) of
        (None, fs) \<Rightarrow> (fst acc, fs)
      | (Some wikilink, fs) \<Rightarrow>
          (fst acc @ [(get_str (dateTime (start ev)) '''', wikilink)], fs))"

text \<open>
  \<open>process_calendar_events\<close>. \<open>start_time_of fs link\<close> stands for
  \<open>_get_meeting_start_time\<close> on the vault \<open>fs\<close>, \<open>new_note_text\<close> for the text of a new
  daily note up to the list. \<open>strptime\<close> is first called for an event that passes the
  guards: a date of the run that it refuses ends the run there with its \<open>ValueError\<close>
  (\<open>None\<close>), and is never looked at when every event is skipped.
\<close>

definition process_calendar_events ::
  "host \<Rightarrow> ((string \<rightharpoonup> string) \<Rightarrow> string \<Rightarrow> string) \<Rightarrow> string \<Rightarrow> event list \<Rightarrow> string
     \<Rightarrow> (string \<rightharpoonup> string) \<Rightarrow> (string \<rightharpoonup> string) option" where
  "process_calendar_events h start_time_of new_note_text events date_str fs =
     (case strptime h date_str of
        None \<Rightarrow> if list_all create_meeting_note_skips events then Some fs else None
      | Some dt \<Rightarrow>
          (case foldl (collect_entry h date_str dt) ([], fs) (sort_key get_sort_key events) of
             (meeting_entries, fs1) \<Rightarrow>
               if meeting_entries \<noteq> [] then
                 (let daily_file = ''DAILY_NOTES/'' @ strftime dt ''%Y'' @ ''/''
                        @ strftime dt ''%m-%B'' @ ''/'' @ date_str @ '' '' @ strftime dt ''%A''
                        @ ''.md''
                  in Some (fs1(daily_file \<mapsto>
                       create_daily_note (start_time_of fs1) new_note_text (fs1 daily_file)
                         meeting_entries)))
               else Some fs1))"


section \<open>Example inputs\<close>

definition ex_ev where "ex_ev = \<lparr>summary = Some ''Sync'', eventType = None,
       attendees = [\<lparr>email = Some ''me@example.org'', displayName = None, self = True,
                      responseStatus = Some ''accepted''\<rparr>,
                    \<lparr>email = Some ''ann@example.org'', displayName = Some ''Ann'', self = False,
                      responseStatus = Some ''declined''\<rparr>],
       attachments = [], guestsCanSeeOtherGuests = None, guestsCanInviteOthers = None,
       start = \<lparr>dateTime = None, date = None\<rparr>, finish = \<lparr>dateTime = None, date = None\<rparr>,
       hangoutLink = None, htmlLink = None, description = None\<rparr>"

definition slides_attachment :: attachment where
  "slides_attachment = \<lparr>title = Some ''Q3 Slides Deck'',
     fileUrl = Some ''https://docs.google.com/presentation/d/1'', fileId = None\<rparr>"

definition bob :: attendee where
  "bob = \<lparr>email = Some ''bob@example.org'', displayName = Some ''Bob Ray'', self = False,
           responseStatus = Some ''accepted''\<rparr>"

definition feb26 :: date_rec where "feb26 = \<lparr>year = 2026, month = 2, day = 26\<rparr>"

definition host0 :: host where
  "host0 = \<lparr>fromisoformat = (\<lambda>s. if take 10 s = ''2026-02-26'' then Some feb26 else None),
            strptime = (\<lambda>s. if s = ''2026-02-26'' then Some feb26 else None),
            render_note = (\<lambda>ev. ''start: '' @ get_str (dateTime (start ev)) ''''),
            rglob = (\<lambda>fs stem. if fs (''MEETINGS/2026/02-February/'' @ stem @ ''.md'') \<noteq> None
                                then Some (''MEETINGS/2026/02-February/'' @ stem @ ''.md'') else None),
            daily_template = [],
            now = ''2026-02-26 08:00''\<rparr>"

definition review_ev :: event where
  "review_ev = ex_ev\<lparr>summary := Some ''Review'',
      start := \<lparr>dateTime = Some ''2026-02-26T09:00:00'', date = None\<rparr>\<rparr>"

definition review_path :: string where
  "review_path = ''MEETINGS/2026/02-February/2026-02-26 - Review.md''"

definition daily_path :: string where
  "daily_path = ''DAILY_NOTES/2026/02-February/2026-02-26 Thursday.md''"

definition plain_note :: string where "plain_note = ''Notes'' @ [nl]"

definition review_files :: "(string \<times> string) list" where
  "review_files = [(''2026-02-26T09:00:00'', review_path)]"

definition once_merged :: string where
  "once_merged = ''Notes'' @ [nl, nl] @ meetings_header @ [nl, nl] @ ''- [[2026-02-26 - Review]]'' @ [nl]"

definition twice_merged :: string where
  "twice_merged = ''Notes'' @ [nl, nl] @ meetings_header @ [nl, nl] @ ''- [[2026-02-26 - Review]]''"

definition first_run :: "string \<rightharpoonup> string" where
  "first_run = files (main host0 [review_ev] feb26 [daily_path \<mapsto> plain_note])"

definition standup_am :: event where
  "standup_am = ex_ev\<lparr>summary := Some ''Standup'',
      start := \<lparr>dateTime = Some ''2026-02-26T09:00:00'', date = None\<rparr>\<rparr>"

definition standup_pm :: event where
  "standup_pm = ex_ev\<lparr>summary := Some ''Standup'',
      start := \<lparr>dateTime = Some ''2026-02-26T16:00:00'', date = None\<rparr>\<rparr>"

definition standup_path :: string where
  "standup_path = ''MEETINGS/2026/02-February/2026-02-26 - Standup.md''"

definition standup_entries :: "(string \<times> string) list" where
  "standup_entries = [(''2026-02-26T09:00:00'', ''[[2026-02-26 - Standup]]''),
                      (''2026-02-26T16:00:00'', ''[[2026-02-26 - Standup]]'')]"

definition note_head :: string where
  "note_head = ''# Daily'' @ [nl] @ planner_meetings_header @ [nl, nl]"

definition standup_twice :: string where
  "standup_twice = ''- [[2026-02-26 - Standup]]'' @ [nl] @ ''- [[2026-02-26 - Standup]]'' @ [nl]"

definition team_note :: string where
  "team_note = ''intro'' @ [nl] @ meetings_header @ [nl] @ ''Today:'' @ [nl] @ ''- [[B]]'' @ [nl]
     @ ''- [[A]]'' @ [nl] @ ''notes'' @ [nl, nl] @ ''- [[C]]'' @ [nl] @ ''# Next''"

definition team_note_merged :: string where
  "team_note_merged = ''intro'' @ [nl] @ meetings_header @ [nl] @ ''Today:'' @ [nl]
     @ ''- [[2026-02-26 - Review]]'' @ [nl] @ ''- [[A]]'' @ [nl] @ ''- [[B]]'' @ [nl]
     @ ''notes'' @ [nl, nl] @ ''- [[C]]'' @ [nl] @ ''# Next''"

definition listed_note :: string where
  "listed_note = meetings_header @ [nl, nl] @ ''- [[X]]'' @ [nl] @ ''- [[Y]]'' @ [nl]
     @ ''- [[Z]]'' @ [nl]"

definition planner_listed_note :: string where
  "planner_listed_note = planner_meetings_header @ [nl, nl] @ ''- [[X]]'' @ [nl] @ ''- [[Y]]'' @ [nl]
     @ ''- [[Z]]'' @ [nl]"

definition listed_times :: "string \<Rightarrow> string" where
  "listed_times link =
     (if link = ''[[X]]'' then ''10:00'' else if link = ''[[Z]]'' then ''09:00'' else [])"

definition listed_notes :: "string \<Rightarrow> string option" where
  "listed_notes stem =
     (if stem = ''X'' then Some ''start: 10:00''
      else if stem = ''Z'' then Some ''start: 09:00''
      else if stem = ''W'' then Some ''start: 08:30''
      else None)"

definition tight_note :: string where
  "tight_note = meetings_header @ [nl] @ ''- [[A]]'' @ [nl] @ ''notes''"

definition unsorted_note :: string where
  "unsorted_note = meetings_header @ [nl, nl] @ ''- [[2026-02-26 - Retro]]'' @ [nl]
     @ ''- [[2026-02-26 - Demo]]'' @ [nl]"

definition planner_unsorted_note :: string where
  "planner_unsorted_note = planner_meetings_header @ [nl, nl] @ ''- [[2026-02-26 - Retro]]'' @ [nl]
     @ ''- [[2026-02-26 - Demo]]'' @ [nl]"

definition retro_demo_files :: "(string \<times> string) list" where
  "retro_demo_files = [([], ''MEETINGS/2026/02-February/2026-02-26 - Retro.md''),
                       ([], ''MEETINGS/2026/02-February/2026-02-26 - Demo.md'')]"

definition declined_ev :: event where
  "declined_ev = review_ev\<lparr>attendees :=
     [\<lparr>email = Some ''me@example.org'', displayName = None, self = True,
        responseStatus = Some ''declined''\<rparr>,
      \<lparr>email = Some ''ann@example.org'', displayName = Some ''Ann'', self = False,
        responseStatus = Some ''accepted''\<rparr>]\<rparr>"

definition solo_ev :: event where
  "solo_ev = review_ev\<lparr>attendees :=
     [\<lparr>email = Some ''me@example.org'', displayName = None, self = True,
        responseStatus = Some ''accepted''\<rparr>]\<rparr>"

definition offsite_ev :: event where
  "offsite_ev = ex_ev\<lparr>summary := Some ''Offsite'',
      start := \<lparr>dateTime = None, date = Some ''2026-02-26''\<rparr>\<rparr>"

definition overnight_ev :: event where
  "overnight_ev = ex_ev\<lparr>summary := Some ''Overnight'',
      start := \<lparr>dateTime = Some ''2026-02-25T23:30:00'', date = None\<rparr>\<rparr>"

definition offsite_path :: string where
  "offsite_path = ''MEETINGS/2026/02-February/2026-02-26 - Offsite.md''"

definition overnight_path :: string where
  "overnight_path = ''MEETINGS/2026/02-February/2026-02-26 - Overnight.md''"

definition overnight_entries :: "(string \<times> string) list" where
  "overnight_entries = [(''2026-02-25T23:30:00'', ''[[2026-02-26 - Overnight]]''),
                        ([], ''[[2026-02-26 - Offsite]]'')]"


section \<open>Properties of the attachment classifiers\<close>

lemma lower_literals:
  "lower ''Budget 2026.xlsx'' = ''budget 2026.xlsx''"
  "lower ''Meeting Minutes'' = ''meeting minutes''"
  "lower ''Q3 Slides Deck'' = ''q3 slides deck''"
  by (simp_all add: lower_def lower_char_def)

text \<open>
  Claim C10. The title-only classifier of the class-based variant returns one of
  \<open>transcript\<close>, \<open>recording\<close>, \<open>agenda\<close>, \<open>minutes\<close>, never \<open>slides\<close> or \<open>other\<close>; an
  attachment whose lower-cased title holds none of the keywords is \<open>agenda\<close> whatever its
  URL is.
\<close>

theorem title_classifier_categories:
  "fst (classify_attachment a) \<in> {''transcript'', ''recording'', ''agenda'', ''minutes''}
   \<and> fst (classify_attachment a) \<noteq> ''slides''
   \<and> fst (classify_attachment a) \<noteq> ''other''
   \<and> ((\<forall>k \<in> set [''gemini'', ''notes by gemini'', ''recording'', ''notes'', ''agenda'', ''1:1'', ''1-1'',
                    ''minutes'', ''summary'', ''recap'']. \<not> contains (lower (get_str (title a) '''')) k)
        \<longrightarrow> classify_attachment a = (''agenda'', get_str (fileUrl a) ''''))"
  by (simp add: classify_attachment_def Let_def)

theorem title_classifier_categories_witness:
  "list_all (\<lambda>k. \<not> contains (lower ''Budget 2026.xlsx'') k)
     [''gemini'', ''notes by gemini'', ''recording'', ''notes'', ''agenda'', ''1:1'', ''1-1'',
      ''minutes'', ''summary'', ''recap'']
   \<and> classify_attachment \<lparr>title = Some ''Budget 2026.xlsx'',
         fileUrl = Some ''https://example.org/f/1'', fileId = None\<rparr>
     = (''agenda'', ''https://example.org/f/1'')"
  using title_classifier_categories
    [of "\<lparr>title = Some ''Budget 2026.xlsx'', fileUrl = Some ''https://example.org/f/1'', fileId = None\<rparr>"]
  by (simp add: get_str_def lower_literals)

text \<open>
  Claim C7 says that a title containing "Q3 Slides Deck" classifies as slides. Neither
  title-only classifier has such a category: the class-based variant and the fall-back of
  the function variant both file that title under agenda.
\<close>

theorem title_only_slides_counterexample:
  "fst (classify_attachment slides_attachment) = ''agenda''
   \<and> fst (classify_attachment slides_attachment) \<noteq> ''slides''
   \<and> fst (classify_event_attachment (\<lambda>file_id. None) slides_attachment) = Agenda
   \<and> fst (classify_event_attachment (\<lambda>file_id. None) slides_attachment) \<noteq> Slides"
  by (simp add: slides_attachment_def classify_attachment_def classify_event_attachment_def
      classify_title_def get_str_def lower_literals)

text \<open>
  Claim C7, amended. Each classifier is a function of the title, the URL and (function
  variant) the Drive metadata, with its own order of rules. With Drive metadata a name
  with "minutes" and neither "gemini" nor "recording" is minutes, and a name with "slides",
  "presentation" or "deck" (or a presentation content type) and none of the earlier
  keywords is slides. From the title alone, "minutes" is minutes when no earlier rule of
  that variant applies, slides is never the answer, and an attachment no rule recognises
  is agenda: always in the class-based variant, and in the function variant when the URL
  holds \<open>docs.google.com\<close> (other when it does not).
\<close>

theorem attachment_classification_by_variant:
  "(contains (lower (get_str (name df) '''')) ''minutes''
      \<and> \<not> contains (lower (get_str (name df) '''')) ''gemini''
      \<and> \<not> contains (lower (get_str (name df) '''')) ''recording''
      \<longrightarrow> fst (classify_drive df url) = Minutes)
   \<and> ((contains (lower (get_str (name df) '''')) ''slides''
        \<or> contains (lower (get_str (name df) '''')) ''presentation''
        \<or> contains (lower (get_str (name df) '''')) ''deck''
        \<or> get_str (mimeType df) '''' = ''application/vnd.google-apps.presentation'')
      \<and> list_all (\<lambda>k. \<not> contains (lower (get_str (name df) '''')) k)
            [''gemini'', ''recording'', ''minutes'', ''summary'', ''recap'']
      \<longrightarrow> fst (classify_drive df url) = Slides)
   \<and> (contains (lower t) ''minutes'' \<and> \<not> contains (lower t) ''transcript''
        \<and> \<not> contains url ''gemini'' \<and> \<not> contains (lower t) ''recording''
      \<longrightarrow> classify_title t url = (Minutes, url))
   \<and> fst (classify_title t url) \<noteq> Slides
   \<and> (list_all (\<lambda>k. \<not> contains (lower t) k)
          [''transcript'', ''recording'', ''minutes'', ''summary'', ''recap'', ''notes'', ''agenda'',
           ''1:1'', ''1-1'']
        \<and> \<not> contains url ''gemini''
      \<longrightarrow> classify_title t url = (if contains url ''docs.google.com'' then Agenda else Other, url))
   \<and> (contains (lower (get_str (title a) '''')) ''minutes''
        \<and> list_all (\<lambda>k. \<not> contains (lower (get_str (title a) '''')) k)
            [''gemini'', ''notes by gemini'', ''recording'', ''notes'', ''agenda'', ''1:1'', ''1-1'']
      \<longrightarrow> classify_attachment a = (''minutes'', get_str (fileUrl a) ''''))
   \<and> fst (classify_attachment a) \<noteq> ''slides''
   \<and> (list_all (\<lambda>k. \<not> contains (lower (get_str (title a) '''')) k)
          [''gemini'', ''notes by gemini'', ''recording'', ''notes'', ''agenda'', ''1:1'', ''1-1'',
           ''minutes'', ''summary'', ''recap'']
      \<longrightarrow> classify_attachment a = (''agenda'', get_str (fileUrl a) ''''))"
  by (simp add: classify_drive_def classify_title_def classify_attachment_def Let_def)

theorem attachment_classification_by_variant_witness:
  "classify_drive \<lparr>name = Some ''Meeting Minutes'', mimeType = None, webViewLink = None\<rparr>
       ''https://example.org/a'' = (Minutes, ''https://example.org/a'')
   \<and> classify_drive \<lparr>name = Some ''Q3 Slides Deck'', mimeType = None, webViewLink = None\<rparr>
       ''https://example.org/a'' = (Slides, ''https://example.org/a'')
   \<and> classify_title ''Meeting Minutes'' ''https://example.org/a'' = (Minutes, ''https://example.org/a'')
   \<and> classify_title ''Budget 2026.xlsx'' ''https://docs.google.com/document/d/1''
        = (Agenda, ''https://docs.google.com/document/d/1'')
   \<and> classify_attachment \<lparr>title = Some ''Meeting Minutes'', fileUrl = Some ''https://example.org/a'',
         fileId = None\<rparr> = (''minutes'', ''https://example.org/a'')
   \<and> classify_attachment \<lparr>title = Some ''Budget 2026.xlsx'',
         fileUrl = Some ''https://docs.google.com/document/d/1'', fileId = None\<rparr>
        = (''agenda'', ''https://docs.google.com/document/d/1'')"
  using attachment_classification_by_variant
      [of "\<lparr>name = Some ''Meeting Minutes'', mimeType = None, webViewLink = None\<rparr>"
          "''https://example.org/a''" "''Meeting Minutes''"
          "\<lparr>title = Some ''Meeting Minutes'', fileUrl = Some ''https://example.org/a'', fileId = None\<rparr>"]
    attachment_classification_by_variant
      [of "\<lparr>name = Some ''Q3 Slides Deck'', mimeType = None, webViewLink = None\<rparr>"
          "''https://docs.google.com/document/d/1''" "''Budget 2026.xlsx''"
          "\<lparr>title = Some ''Budget 2026.xlsx'',
             fileUrl = Some ''https://docs.google.com/document/d/1'', fileId = None\<rparr>"]
  by (simp add: get_str_def lower_literals classify_drive_def)


section \<open>Properties of the event filter\<close>

lemma should_skip_event_iff:
  "should_skip_event ev me \<longleftrightarrow>
     eventType ev = Some ''workingLocation''
     \<or> (\<exists>a \<in> set (attendees ev). email a = Some me \<and> responseStatus a = Some ''declined'')
     \<or> attendees ev = []
     \<or> (\<forall>a \<in> set (attendees ev). email a = Some me)
     \<or> (guestsCanSeeOtherGuests ev = Some False \<and> guestsCanInviteOthers ev = Some False)"
  by (auto simp: should_skip_event_def list_ex_iff filter_empty_conv)

lemma create_meeting_note_skips_iff:
  "create_meeting_note_skips ev \<longleftrightarrow>
     eventType ev = Some ''workingLocation''
     \<or> (\<exists>a \<in> set (attendees ev). self a \<and> responseStatus a = Some ''declined'')
     \<or> attendees ev = []
     \<or> (\<forall>a \<in> set (attendees ev). self a)
     \<or> (guestsCanSeeOtherGuests ev = Some False \<and> guestsCanInviteOthers ev = Some False)"
  by (auto simp: create_meeting_note_skips_def list_ex_iff filter_empty_conv get_str_def
      split: option.splits)


section \<open>Properties of attendee resolution\<close>

lemma match_attendee_known_email:
  "people_map (get_str (email a) '''') = Some n \<Longrightarrow> match_attendee people_map gog a = (n, True)"
  by (simp add: match_attendee_def Let_def)

lemma match_attendee_literal_name:
  "people_map (get_str (email a) '''') = None \<Longrightarrow> get_str (displayName a) '''' \<noteq> [] \<Longrightarrow>
   people_map (lower (get_str (displayName a) '''')) = None \<Longrightarrow> gog (get_str (email a) '''') = None
   \<Longrightarrow> match_attendee people_map gog a = (get_str (displayName a) '''', False)"
  by (simp add: match_attendee_def Let_def)

lemma match_attendee_local_part:
  "people_map (get_str (email a) '''') = None \<Longrightarrow> get_str (displayName a) '''' = [] \<Longrightarrow>
   get_str (email a) '''' \<noteq> [] \<Longrightarrow> gog (get_str (email a) '''') = None
   \<Longrightarrow> match_attendee people_map gog a = (local_part (get_str (email a) ''''), False)"
  by (simp add: match_attendee_def Let_def)

lemma match_attendee_placeholder:
  "people_map [] = None \<Longrightarrow> get_str (displayName a) '''' = [] \<Longrightarrow> get_str (email a) '''' = []
   \<Longrightarrow> match_attendee people_map gog a = (''Unknown'', False)"
  by (simp add: match_attendee_def Let_def)

lemma match_attendee_source:
  assumes "get_str (displayName a) '''' \<noteq> [] \<or> get_str (email a) '''' \<noteq> []"
  shows "fst (match_attendee people_map gog a) \<in> ran people_map
          \<or> (\<exists>g. gog (get_str (email a) '''') = Some g
                \<and> fst (match_attendee people_map gog a) = strip g)
          \<or> fst (match_attendee people_map gog a) = get_str (displayName a) ''''
          \<or> fst (match_attendee people_map gog a) = local_part (get_str (email a) '''')"
proof (cases "people_map (get_str (email a) '''')")
  case (Some n)
  then show ?thesis by (simp add: match_attendee_def Let_def ranI)
next
  case em: None
  show ?thesis
  proof (cases "if get_str (displayName a) '''' \<noteq> [] then people_map (lower (get_str (displayName a) '''')) else None")
    case (Some n)
    then have "n \<in> ran people_map" by (auto simp: ranI split: if_splits)
    with em Some show ?thesis by (simp add: match_attendee_def Let_def)
  next
    case dn: None
    define full_name where "full_name =
       (if get_str (email a) '''' \<noteq> [] then (case gog (get_str (email a) '''') of None \<Rightarrow> [] | Some n \<Rightarrow> strip n) else [])"
    show ?thesis
    proof (cases "if full_name \<noteq> [] then people_map (lower full_name) else None")
      case (Some n)
      then have "n \<in> ran people_map" by (auto simp: ranI split: if_splits)
      with em dn Some show ?thesis unfolding match_attendee_def Let_def full_name_def by simp
    next
      case fn: None
      have r: "match_attendee people_map gog a =
         (if full_name \<noteq> [] then (full_name, False)
          else if get_str (displayName a) '''' \<noteq> [] then (get_str (displayName a) '''', False)
          else if get_str (email a) '''' \<noteq> [] then (local_part (get_str (email a) ''''), False)
          else (''Unknown'', False))"
        using em dn fn unfolding match_attendee_def Let_def full_name_def by simp
      have g: "full_name \<noteq> [] \<Longrightarrow> \<exists>g. gog (get_str (email a) '''') = Some g \<and> full_name = strip g"
        by (auto simp: full_name_def split: if_splits option.splits)
      show ?thesis using assms g by (auto simp: r)
    qed
  qed
qed

lemma match_attendee_to_person_is_link:
  "\<exists>shown. match_attendee_to_person grep_mail person_file gog em dn = quoted_link shown"
  by (auto simp: match_attendee_to_person_def split: option.splits)

lemma match_attendee_to_person_known:
  "em \<noteq> [] \<Longrightarrow> grep_mail em = Some n \<Longrightarrow>
   match_attendee_to_person grep_mail person_file gog em dn = quoted_link n"
  by (simp add: match_attendee_to_person_def)

lemma match_attendee_to_person_fallback:
  "grep_mail em = None \<Longrightarrow> \<not> person_file dn \<Longrightarrow> gog em = None \<Longrightarrow>
   match_attendee_to_person grep_mail person_file gog em dn = quoted_link dn"
  by (simp add: match_attendee_to_person_def)

text \<open>
  Claim C5 says that an unknown address with a display name and no directory hit yields
  plain quoted text, not a link. \<open>match_attendee_to_person\<close> returns a quoted wikilink
  there, as its documentation says of every result.
\<close>

theorem function_variant_links_literal_name_counterexample:
  "attendee_link (\<lambda>e. None) (\<lambda>n. False) (\<lambda>e. None) bob = quoted_link ''Bob Ray''
   \<and> attendee_link (\<lambda>e. None) (\<lambda>n. False) (\<lambda>e. None) bob \<noteq> quoted_text ''Bob Ray''"
  by (simp add: attendee_link_def match_attendee_to_person_def bob_def get_str_def
      quoted_link_def quoted_text_def)

text \<open>
  Claim C5, amended. Both resolvers return a value for every input, a failed look-up being
  no result. In the class-based variant a known address gives the known identity, linked;
  an unknown address with a display name and no directory hit gives the display name as
  plain quoted text; an address without display name and without hit gives its local
  part; the placeholder \<open>Unknown\<close> is what remains when address and display name are both
  absent, and with either present the name comes from the people map, the directory, the
  display name or the local part. In the function variant the order of the look-ups is
  the same, but every outcome is written as a quoted wikilink, the literal display name
  included.
\<close>

theorem attendee_cascade_by_variant:
  "(people_map (get_str (email a) '''') = Some n
      \<longrightarrow> match_attendee people_map gog a = (n, True)
          \<and> attendee_entry (match_attendee people_map gog a) = quoted_link n)
   \<and> (people_map (get_str (email a) '''') = None \<and> get_str (displayName a) '''' \<noteq> []
        \<and> people_map (lower (get_str (displayName a) '''')) = None
        \<and> gog (get_str (email a) '''') = None
      \<longrightarrow> match_attendee people_map gog a = (get_str (displayName a) '''', False)
          \<and> attendee_entry (match_attendee people_map gog a)
              = quoted_text (get_str (displayName a) ''''))
   \<and> (people_map (get_str (email a) '''') = None \<and> get_str (displayName a) '''' = []
        \<and> get_str (email a) '''' \<noteq> [] \<and> gog (get_str (email a) '''') = None
      \<longrightarrow> match_attendee people_map gog a = (local_part (get_str (email a) ''''), False))
   \<and> (people_map [] = None \<and> get_str (displayName a) '''' = [] \<and> get_str (email a) '''' = []
      \<longrightarrow> match_attendee people_map gog a = (''Unknown'', False))
   \<and> (get_str (displayName a) '''' \<noteq> [] \<or> get_str (email a) '''' \<noteq> []
      \<longrightarrow> fst (match_attendee people_map gog a) \<in> ran people_map
          \<or> (\<exists>g. gog (get_str (email a) '''') = Some g
                \<and> fst (match_attendee people_map gog a) = strip g)
          \<or> fst (match_attendee people_map gog a) = get_str (displayName a) ''''
          \<or> fst (match_attendee people_map gog a) = local_part (get_str (email a) ''''))
   \<and> (\<exists>shown. match_attendee_to_person grep_mail person_file gog2 em dn = quoted_link shown)
   \<and> (em \<noteq> [] \<and> grep_mail em = Some n
      \<longrightarrow> match_attendee_to_person grep_mail person_file gog2 em dn = quoted_link n)
   \<and> (grep_mail em = None \<and> \<not> person_file dn \<and> gog2 em = None
      \<longrightarrow> match_attendee_to_person grep_mail person_file gog2 em dn = quoted_link dn)"
  using match_attendee_source [of a people_map gog]
    match_attendee_to_person_is_link [of grep_mail person_file gog2 em dn]
  by (simp add: match_attendee_known_email match_attendee_literal_name match_attendee_local_part
      match_attendee_placeholder match_attendee_to_person_known match_attendee_to_person_fallback
      attendee_entry_def)

theorem attendee_cascade_by_variant_witness:
  "match_attendee [''bob@example.org'' \<mapsto> ''Robert Ray''] (\<lambda>e. None) bob = (''Robert Ray'', True)
   \<and> match_attendee Map.empty (\<lambda>e. None) bob = (''Bob Ray'', False)
   \<and> attendee_entry (match_attendee Map.empty (\<lambda>e. None) bob) = quoted_text ''Bob Ray''
   \<and> match_attendee Map.empty (\<lambda>e. None) (bob\<lparr>displayName := None\<rparr>) = (''bob'', False)
   \<and> match_attendee Map.empty (\<lambda>e. None) (bob\<lparr>displayName := None, email := None\<rparr>)
        = (''Unknown'', False)
   \<and> match_attendee_to_person (\<lambda>e. Some ''Robert Ray'') (\<lambda>n. False) (\<lambda>e. None)
        ''bob@example.org'' ''Bob Ray'' = quoted_link ''Robert Ray''
   \<and> match_attendee_to_person (\<lambda>e. None) (\<lambda>n. False) (\<lambda>e. None)
        ''bob@example.org'' ''Bob Ray'' = quoted_link ''Bob Ray''"
  using attendee_cascade_by_variant
      [of "[''bob@example.org'' \<mapsto> ''Robert Ray'']" bob "''Robert Ray''" "\<lambda>e. None"
          "\<lambda>e. Some ''Robert Ray''" "\<lambda>n. False" "\<lambda>e. None" "''bob@example.org''" "''Bob Ray''"]
    attendee_cascade_by_variant
      [of Map.empty bob "''x''" "\<lambda>e. None"
          "\<lambda>e. None" "\<lambda>n. False" "\<lambda>e. None" "''bob@example.org''" "''Bob Ray''"]
    attendee_cascade_by_variant
      [of Map.empty "bob\<lparr>displayName := None\<rparr>" "''x''" "\<lambda>e. None"]
    attendee_cascade_by_variant
      [of Map.empty "bob\<lparr>displayName := None, email := None\<rparr>" "''x''" "\<lambda>e. None"]
  by (simp add: bob_def get_str_def local_part_def attendee_entry_def)


section \<open>Properties of the token translator\<close>

lemma tokens_longest_first_eq:
  "tokens_longest_first =
     [(''YYYY'', ''%Y''), (''MMMM'', ''%B''), (''DDDD'', ''%j''), (''dddd'', ''%A''),
      (''MMM'', ''%b''), (''ddd'', ''%a''),
      (''YY'', ''%y''), (''MM'', ''%m''), (''DD'', ''%d''), (''dd'', ''%a''), (''HH'', ''%H''),
      (''hh'', ''%I''), (''mm'', ''%M''), (''ss'', ''%S''),
      (''M'', ''%-m''), (''D'', ''%-d''), (''d'', ''%w''), (''H'', ''%-H''), (''h'', ''%-I''),
      (''m'', ''%-M''), (''s'', ''%-S''), (''A'', ''%p''), (''a'', ''%p'')]"
  by (simp add: tokens_longest_first_def MOMENT_TO_STRFTIME_def)

lemma convert_single_tokens:
  "convert_moment_to_strftime ''YYYY'' = ''%Y''"
  "convert_moment_to_strftime ''YY'' = ''%y''"
  "convert_moment_to_strftime ''MMMM'' = ''%B''"
  "convert_moment_to_strftime ''MMM'' = ''%b''"
  "convert_moment_to_strftime ''MM'' = ''%m''"
  "convert_moment_to_strftime ''M'' = ''%-m''"
  "convert_moment_to_strftime ''DDDD'' = ''%j''"
  "convert_moment_to_strftime ''DD'' = ''%d''"
  "convert_moment_to_strftime ''D'' = ''%-d''"
  "convert_moment_to_strftime ''dddd'' = ''%A''"
  "convert_moment_to_strftime ''ddd'' = ''%a''"
  "convert_moment_to_strftime ''dd'' = ''%a''"
  "convert_moment_to_strftime ''d'' = ''%w''"
  "convert_moment_to_strftime ''HH'' = ''%H''"
  "convert_moment_to_strftime ''H'' = ''%-H''"
  "convert_moment_to_strftime ''hh'' = ''%I''"
  "convert_moment_to_strftime ''h'' = ''%-I''"
  "convert_moment_to_strftime ''mm'' = ''%M''"
  "convert_moment_to_strftime ''m'' = ''%-M''"
  "convert_moment_to_strftime ''ss'' = ''%S''"
  "convert_moment_to_strftime ''s'' = ''%-S''"
  "convert_moment_to_strftime ''A'' = ''%p''"
  "convert_moment_to_strftime ''a'' = ''%p''"
  by code_simp+

lemma convert_every_token:
  "\<forall>kv \<in> set MOMENT_TO_STRFTIME. convert_moment_to_strftime (fst kv) = snd kv"
  by (simp add: MOMENT_TO_STRFTIME_def convert_single_tokens)

lemma convert_default_format:
  "convert_moment_to_strftime ''YYYY/MM-MMMM/YYYY-MM-DD dddd'' = ''%Y/%m-%B/%Y-%m-%d %A''"
  by code_simp

lemma weekday_example: "weekday \<lparr>year = 2026, month = 2, day = 26\<rparr> = 3"
  by (simp add: weekday_def toordinal_def days_before_year_def days_before_month_def is_leap_def)

lemma format_default_date:
  "strftime \<lparr>year = 2026, month = 2, day = 26\<rparr>
     (convert_moment_to_strftime ''YYYY/MM-MMMM/YYYY-MM-DD dddd'')
     = ''2026/02-February/2026-02-26 Thursday''"
  by (simp add: convert_default_format weekday_example zero_pad_def str_nat.simps digit_char_def
      month_names_def day_names_def strftime.simps)

text \<open>
  Claim C8: tokens are replaced longest first through placeholders and every other
  character passes through unchanged. Each token alone gives its code
  (\<open>convert_every_token\<close>) and the default format gives the expected path
  (\<open>format_default_date\<close>), but the placeholder of the token with counter \<open>0\<close> is also
  what two neighbouring placeholders and a literal \<open>0\<close> between them spell: for
  \<open>mm0HH\<close> the second pass replaces that first, and neither token is translated.
\<close>

theorem literal_digit_between_tokens:
  "convert_moment_to_strftime ''mm0HH'' = [CHR 0x00, CHR ''1'', CHR ''%'', CHR ''H'', CHR ''0'', CHR 0x00]
   \<and> convert_moment_to_strftime ''mm0HH'' \<noteq> ''%M0%H''
   \<and> convert_moment_to_strftime ''HH0mm'' = ''%H0%M''"
  by code_simp


section \<open>Properties of the run of the function variant\<close>

lemma get_meeting_file_path_fails_iff:
  "(\<exists>e. get_meeting_file_path h ev = Inl e) \<longleftrightarrow> unusable_start h ev"
  by (auto simp: get_meeting_file_path_def unusable_start_def split: option.splits if_splits)

lemma create_meeting_note_fails_iff:
  "(\<exists>e. create_meeting_note h ev fs = Inl e) \<longleftrightarrow> unusable_start h ev"
  unfolding get_meeting_file_path_fails_iff [symmetric]
  by (auto simp: create_meeting_note_def Let_def split: sum.splits)

lemma process_event_unusable:
  assumes "unusable_start h ev"
  shows "same_outcome (process_event h st ev) st"
proof -
  obtain e where "create_meeting_note h ev (files st) = Inl e"
    using assms create_meeting_note_fails_iff by blast
  then show ?thesis
    by (simp add: process_event_def same_outcome_def)
qed

lemma process_event_reports:
  assumes "unusable_start h ev" and "\<not> should_skip_event ev ''jlaska@redhat.com''"
  shows "\<exists>e. process_event h st ev
           = st\<lparr>log := log st @ [Processing (get_str (summary ev) ''Untitled''), Failed e]\<rparr>"
proof -
  obtain e where "create_meeting_note h ev (files st) = Inl e"
    using assms create_meeting_note_fails_iff by blast
  then have "process_event h st ev
           = st\<lparr>log := log st @ [Processing (get_str (summary ev) ''Untitled''), Failed e]\<rparr>"
    using assms(2) by (simp add: process_event_def)
  then show ?thesis ..
qed

lemma process_event_same_outcome:
  assumes "same_outcome a b"
  shows "same_outcome (process_event h a ev) (process_event h b ev)"
  using assms
  by (auto simp: process_event_def same_outcome_def split: sum.splits prod.splits)

lemma foldl_process_event_same_outcome:
  "same_outcome a b \<Longrightarrow>
   same_outcome (foldl (process_event h) a evs) (foldl (process_event h) b evs)"
  by (induction evs arbitrary: a b) (simp_all add: process_event_same_outcome)

lemma log_grows: "set (log st) \<subseteq> set (log (process_event h st ev))"
  by (auto simp: process_event_def split: sum.splits prod.splits)

lemma foldl_log_grows: "set (log st) \<subseteq> set (log (foldl (process_event h) st evs))"
proof (induction evs arbitrary: st)
  case Nil
  show ?case by simp
next
  case (Cons ev evs)
  have "set (log st) \<subseteq> set (log (process_event h st ev))" by (rule log_grows)
  also have "\<dots> \<subseteq> set (log (foldl (process_event h) (process_event h st ev) evs))"
    by (rule Cons.IH)
  finally show ?case by simp
qed

text \<open>
  Claim C9. An event without a usable start date makes \<open>get_meeting_file_path\<close> raise; the
  loop of \<open>main\<close> catches that, so the event writes no file and adds no pair, the events
  before and after it are processed as if it were not in the batch, and when the filter
  let the event through the failure is in the log.
\<close>

theorem bad_start_date_skips_one_event:
  assumes "unusable_start h bad"
  shows "same_outcome (foldl (process_event h) st (pre @ bad # post))
                      (foldl (process_event h) st (pre @ post))
       \<and> files (main h (pre @ bad # post) target fs) = files (main h (pre @ post) target fs)
       \<and> meeting_files (main h (pre @ bad # post) target fs)
           = meeting_files (main h (pre @ post) target fs)
       \<and> files (process_event h st bad) = files st
       \<and> (\<not> should_skip_event bad ''jlaska@redhat.com''
            \<longrightarrow> (\<exists>e. Failed e \<in> set (log (main h (pre @ bad # post) target fs))))"
proof -
  have step: "same_outcome (process_event h s bad) s" for s
    using assms by (rule process_event_unusable)
  have loop: "same_outcome (foldl (process_event h) s (pre @ bad # post))
                           (foldl (process_event h) s (pre @ post))" for s
    by (simp add: foldl_process_event_same_outcome step)
  have m: "files (main h (pre @ bad # post) target fs) = files (main h (pre @ post) target fs)
     \<and> meeting_files (main h (pre @ bad # post) target fs)
           = meeting_files (main h (pre @ post) target fs)"
    using loop [of "\<lparr>files = fs, meeting_files = [], skipped_count = 0, log = []\<rparr>"]
    unfolding main_def Let_def same_outcome_def by auto
  have rep: "\<exists>e. Failed e \<in> set (log (main h (pre @ bad # post) target fs))"
    if ns: "\<not> should_skip_event bad ''jlaska@redhat.com''"
  proof -
    define s0 where "s0 = foldl (process_event h)
        \<lparr>files = fs, meeting_files = [], skipped_count = 0, log = []\<rparr> pre"
    obtain e where e: "process_event h s0 bad
        = s0\<lparr>log := log s0 @ [Processing (get_str (summary bad) ''Untitled''), Failed e]\<rparr>"
      using process_event_reports [OF assms ns] by blast
    have "Failed e \<in> set (log (process_event h s0 bad))"
      by (simp add: e)
    then have "Failed e \<in> set (log (foldl (process_event h) (process_event h s0 bad) post))"
      using foldl_log_grows by blast
    then have "Failed e \<in> set (log (foldl (process_event h)
        \<lparr>files = fs, meeting_files = [], skipped_count = 0, log = []\<rparr> (pre @ bad # post)))"
      by (simp add: s0_def)
    then have "Failed e \<in> set (log (main h (pre @ bad # post) target fs))"
      by (simp add: main_def Let_def)
    then show ?thesis ..
  qed
  show ?thesis
    using loop [of st] m step [of st] rep by (simp add: same_outcome_def)
qed

lemma strftime_feb26:
  "strftime feb26 ''%Y'' = ''2026''" "strftime feb26 ''%m'' = ''02''" "strftime feb26 ''%B'' = ''February''"
  "strftime feb26 ''%Y-%m-%d'' = ''2026-02-26''" "strftime feb26 ''%A'' = ''Thursday''"
  "strftime feb26 ''%m-%B'' = ''02-February''"
  by (simp_all add: feb26_def weekday_def toordinal_def days_before_year_def days_before_month_def
      is_leap_def zero_pad_def str_nat.simps digit_char_def month_names_def day_names_def
      strftime.simps)

lemma sanitize_review: "sanitize_title ''Review'' = ''Review''"
  by code_simp

lemma review_ev_path: "get_meeting_file_path host0 review_ev = Inr review_path"
proof -
  have d: "event_date_str review_ev = Some ''2026-02-26T09:00:00''"
    by (simp add: event_date_str_def review_ev_def)
  have p: "fromisoformat host0 (replace ''2026-02-26T09:00:00'' ''Z'' ''+00:00'') = Some feb26"
    by (simp add: host0_def replace_def)
  have s: "get_str (summary review_ev) ''Untitled'' = ''Review''"
    by (simp add: review_ev_def get_str_def)
  show ?thesis
    unfolding get_meeting_file_path_def d s sanitize_review
    by (simp add: p strftime_feb26 review_path_def)
qed

lemma daily_note_path_feb26: "daily_note_path feb26 = daily_path"
  unfolding daily_note_path_def strftime_feb26 by (simp add: daily_path_def)

lemma ex_ev_unusable: "unusable_start host0 ex_ev"
  by (simp add: unusable_start_def event_date_str_def ex_ev_def)

lemma ex_ev_kept: "\<not> should_skip_event ex_ev ''jlaska@redhat.com''"
  by (simp add: should_skip_event_def ex_ev_def)

lemma review_ev_kept: "\<not> should_skip_event review_ev ''jlaska@redhat.com''"
  by (simp add: should_skip_event_def ex_ev_def review_ev_def)

lemma create_review:
  "create_meeting_note host0 review_ev fs =
     (if fs review_path \<noteq> None
      then Inr ((''2026-02-26T09:00:00'', review_path), fs, AlreadyExists ''2026-02-26 - Review.md'')
      else Inr ((''2026-02-26T09:00:00'', review_path), fs(review_path \<mapsto> ''start: 2026-02-26T09:00:00''),
                Created ''2026-02-26 - Review.md''))"
proof -
  have a: "get_str (dateTime (start review_ev)) '''' = ''2026-02-26T09:00:00''"
    by (simp add: review_ev_def get_str_def)
  have b: "render_note host0 review_ev = ''start: 2026-02-26T09:00:00''"
    by (simp add: host0_def a)
  have c: "path_name review_path = ''2026-02-26 - Review.md''"
    by code_simp
  show ?thesis
    unfolding create_meeting_note_def review_ev_path Let_def a b by (simp add: c)
qed

lemma process_review:
  "process_event host0 st review_ev =
     (if files st review_path \<noteq> None
      then st\<lparr>files := files st,
              meeting_files := meeting_files st @ [(''2026-02-26T09:00:00'', review_path)],
              log := log st @ [Processing ''Review'', AlreadyExists ''2026-02-26 - Review.md'']\<rparr>
      else st\<lparr>files := (files st)(review_path \<mapsto> ''start: 2026-02-26T09:00:00''),
              meeting_files := meeting_files st @ [(''2026-02-26T09:00:00'', review_path)],
              log := log st @ [Processing ''Review'', Created ''2026-02-26 - Review.md'']\<rparr>)"
proof -
  have s: "get_str (summary review_ev) ''Untitled'' = ''Review''"
    by (simp add: review_ev_def get_str_def)
  show ?thesis
    unfolding process_event_def create_review s using review_ev_kept by simp
qed

lemma first_merge:
  "update_daily_note_content find_note review_files plain_note = once_merged"
proof -
  have a: "find_sub plain_note meetings_header = None" by code_simp
  have b: "new_meeting_links review_files = [''- [[2026-02-26 - Review]]'']" by code_simp
  have c: "rstrip plain_note = ''Notes''" by code_simp
  show ?thesis
    unfolding update_daily_note_content_def a b c by (simp add: once_merged_def)
qed

lemma update_daily_note_content_section:
  assumes "find_sub content meetings_header = Some s"
    and "(case find_from content [nl, CHR ''#''] (s + 1) of None \<Rightarrow> length content | Some e \<Rightarrow> e) = e"
    and "split_nl (take (e - s) (drop s content)) = header # lines"
    and "foldl scan_line scan_start lines = st"
  shows "update_daily_note_content find_note mf content =
           take s content
           @ join_nl ([header] @ (if before_list st \<noteq> [] then before_list st else [[]])
                      @ all_links find_note (existing_links st) (new_meeting_links mf)
                      @ after_list st)
           @ drop e content"
  using assms by (simp add: update_daily_note_content_def Let_def)

lemma second_merge:
  "update_daily_note_content find_note review_files once_merged = twice_merged"
proof -
  have a: "find_sub once_merged meetings_header = Some 7" by code_simp
  have b: "(case find_from once_merged [nl, CHR ''#''] (7 + 1) of
              None \<Rightarrow> length once_merged | Some e \<Rightarrow> e) = 50" by code_simp
  have c: "split_nl (take (50 - 7) (drop 7 once_merged))
             = meetings_header # [[], ''- [[2026-02-26 - Review]]'', []]" by code_simp
  have d: "foldl scan_line scan_start [[], ''- [[2026-02-26 - Review]]'', []]
             = \<lparr>in_list = True, list_ended = False,
                 existing_links = [''- [[2026-02-26 - Review]]''], before_list = [[]],
                 after_list = []\<rparr>" by code_simp
  have e: "new_meeting_links review_files = [''- [[2026-02-26 - Review]]'']" by code_simp
  have f: "stem_of_link ''- [[2026-02-26 - Review]]'' = ''2026-02-26 - Review''" by code_simp
  have g: "link_of_stem ''2026-02-26 - Review'' = ''- [[2026-02-26 - Review]]''" by code_simp
  have h: "all_links find_note [''- [[2026-02-26 - Review]]''] [''- [[2026-02-26 - Review]]'']
             = [''- [[2026-02-26 - Review]]'']"
    unfolding all_links_def Let_def by (simp add: f g)
  have i: "take 7 once_merged = ''Notes'' @ [nl, nl]" "drop 50 once_merged = []"
    by (simp_all add: once_merged_def meetings_header_def)
  show ?thesis
    unfolding update_daily_note_content_section [OF a b c d] e
    by (simp add: h i twice_merged_def)
qed

lemma main_files:
  "files (main host0 [review_ev] feb26 fs) =
     (let fs1 = (if fs review_path \<noteq> None then fs else fs(review_path \<mapsto> ''start: 2026-02-26T09:00:00''))
      in update_daily_note host0 review_files feb26 fs1)"
  by (simp add: main_def process_review Let_def review_files_def)

lemma update_daily_note_feb26:
  "update_daily_note host0 mf feb26 fs =
     fs(daily_path \<mapsto> update_daily_note_content
          (\<lambda>stem. case rglob host0 fs stem of None \<Rightarrow> None | Some p \<Rightarrow> fs p) mf
          (case fs daily_path of Some c \<Rightarrow> c
           | None \<Rightarrow> ''---'' @ [nl] @ ''created: '' @ now host0 @ [nl] @ ''tags:'' @ [nl]
                        @ ''  - Daily_Notes'' @ [nl] @ ''---'' @ [nl, nl]
                        @ load_daily_note_template host0))"
  unfolding update_daily_note_def daily_note_path_feb26 Let_def by simp

lemma paths_differ: "daily_path \<noteq> review_path" "review_path \<noteq> daily_path"
  by (simp_all add: daily_path_def review_path_def)

lemma first_run_eq:
  "first_run = [daily_path \<mapsto> once_merged, review_path \<mapsto> ''start: 2026-02-26T09:00:00'']"
  unfolding first_run_def main_files update_daily_note_feb26
  by (auto simp: paths_differ first_merge Let_def)

lemma second_run_daily:
  "files (main host0 [review_ev] feb26 first_run) daily_path = Some twice_merged"
  unfolding first_run_eq main_files update_daily_note_feb26
  by (simp add: paths_differ Let_def second_merge)

lemma first_run_review: "first_run review_path = Some ''start: 2026-02-26T09:00:00''"
  by (simp add: first_run_eq paths_differ)

theorem bad_start_date_skips_one_event_witness:
  "unusable_start host0 ex_ev
   \<and> files (main host0 [ex_ev, review_ev] feb26 [daily_path \<mapsto> plain_note]) = first_run
   \<and> first_run review_path = Some ''start: 2026-02-26T09:00:00''
   \<and> meeting_files (main host0 [ex_ev, review_ev] feb26 [daily_path \<mapsto> plain_note])
        = meeting_files (main host0 [review_ev] feb26 [daily_path \<mapsto> plain_note])
   \<and> (\<exists>e. Failed e \<in> set (log (main host0 [ex_ev, review_ev] feb26 [daily_path \<mapsto> plain_note])))"
  using bad_start_date_skips_one_event [OF ex_ev_unusable,
      where pre = "[]" and post = "[review_ev]" and target = feb26
        and fs = "[daily_path \<mapsto> plain_note]"]
    ex_ev_unusable ex_ev_kept first_run_review
  by (simp add: first_run_def)

text \<open>
  Claim C1: merging the same pairs a second time leaves the daily note as the first merge
  made it. A daily note without the meetings header gets the section appended with a line
  break at its end; the second merge finds the section, drops the empty last line while it
  scans the list and writes the note back without that line break. The same happens when
  the whole run is repeated on the same events.
\<close>

theorem second_merge_drops_final_newline:
  "update_daily_note_content find_note review_files plain_note = once_merged
   \<and> update_daily_note_content find_note review_files once_merged = twice_merged
   \<and> twice_merged \<noteq> once_merged
   \<and> files (main host0 [review_ev] feb26 [daily_path \<mapsto> plain_note]) daily_path = Some once_merged
   \<and> files (main host0 [review_ev] feb26
        (files (main host0 [review_ev] feb26 [daily_path \<mapsto> plain_note]))) daily_path
       = Some twice_merged"
proof -
  have a: "twice_merged \<noteq> once_merged"
    by (simp add: once_merged_def twice_merged_def)
  have b: "files (main host0 [review_ev] feb26 [daily_path \<mapsto> plain_note]) daily_path
             = Some once_merged"
    using first_run_eq by (simp add: first_run_def paths_differ)
  have c: "files (main host0 [review_ev] feb26
        (files (main host0 [review_ev] feb26 [daily_path \<mapsto> plain_note]))) daily_path
       = Some twice_merged"
    using second_run_daily by (simp only: first_run_def)
  show ?thesis
    using a b c first_merge second_merge by blast
qed


section \<open>The event filter in the run of the function variant\<close>

lemma declined_ev_kept: "\<not> should_skip_event declined_ev ''jlaska@redhat.com''"
  by (simp add: should_skip_event_def declined_ev_def review_ev_def ex_ev_def)

lemma solo_ev_kept: "\<not> should_skip_event solo_ev ''jlaska@redhat.com''"
  by (simp add: should_skip_event_def solo_ev_def review_ev_def ex_ev_def)

lemma get_meeting_file_path_attendees:
  "get_meeting_file_path h (ev\<lparr>attendees := as\<rparr>) = get_meeting_file_path h ev"
  by (simp add: get_meeting_file_path_def event_date_str_def cong: option.case_cong if_cong)

lemma create_review_attendees:
  "create_meeting_note host0 (review_ev\<lparr>attendees := as\<rparr>) fs = create_meeting_note host0 review_ev fs"
  by (simp add: create_meeting_note_def get_meeting_file_path_attendees host0_def
      cong: sum.case_cong if_cong)

lemma process_review_attendees:
  assumes "\<not> should_skip_event (review_ev\<lparr>attendees := as\<rparr>) ''jlaska@redhat.com''"
  shows "process_event host0 st (review_ev\<lparr>attendees := as\<rparr>) = process_event host0 st review_ev"
  using assms review_ev_kept
  by (simp add: process_event_def create_review_attendees cong: sum.case_cong prod.case_cong)

lemma main_declined:
  "main host0 [declined_ev] feb26 fs = main host0 [review_ev] feb26 fs"
  "main host0 [solo_ev] feb26 fs = main host0 [review_ev] feb26 fs"
  using declined_ev_kept solo_ev_kept
  by (simp_all add: main_def declined_ev_def solo_ev_def process_review_attendees)

lemma main_review_empty:
  "skipped_count (main host0 [review_ev] feb26 Map.empty) = 0"
  "meeting_files (main host0 [review_ev] feb26 Map.empty) = [(''2026-02-26T09:00:00'', review_path)]"
  "files (main host0 [review_ev] feb26 Map.empty) review_path = Some ''start: 2026-02-26T09:00:00''"
  by (simp_all add: main_def process_review Let_def update_daily_note_feb26 paths_differ)

text \<open>
  Claim C6: the filter skips an event that the user's own attendee entry has declined, and
  an event whose every attendee is the user. The class-based variant reads the \<open>self\<close> flag
  of the attendees and does so (\<open>create_meeting_note_skips_iff\<close>). \<open>should_skip_event\<close> knows
  the user by an address (\<open>should_skip_event_iff\<close>), and \<open>main\<close> calls it without one, so in
  every run the address is the default of the signature, \<open>jlaska@redhat.com\<close>. For a user of
  another address the run keeps the event they declined and the event that has nobody but
  them, counts neither as skipped and writes the meeting note, where the docstring of
  \<open>should_skip_event\<close> says \<open>Declined by user\<close> and \<open>No attendees or only yourself\<close>.
\<close>

theorem declined_by_self_is_kept:
  "self (hd (attendees declined_ev)) \<and> responseStatus (hd (attendees declined_ev)) = Some ''declined''
   \<and> create_meeting_note_skips declined_ev
   \<and> should_skip_event declined_ev ''me@example.org''
   \<and> \<not> should_skip_event declined_ev ''jlaska@redhat.com''
   \<and> skipped_count (main host0 [declined_ev] feb26 Map.empty) = 0
   \<and> meeting_files (main host0 [declined_ev] feb26 Map.empty)
       = [(''2026-02-26T09:00:00'', review_path)]
   \<and> files (main host0 [declined_ev] feb26 Map.empty) review_path
       = Some ''start: 2026-02-26T09:00:00''
   \<and> list_all self (attendees solo_ev) \<and> create_meeting_note_skips solo_ev
   \<and> skipped_count (main host0 [solo_ev] feb26 Map.empty) = 0
   \<and> files (main host0 [solo_ev] feb26 Map.empty) review_path
       = Some ''start: 2026-02-26T09:00:00''"
proof -
  have a: "self (hd (attendees declined_ev))"
    "responseStatus (hd (attendees declined_ev)) = Some ''declined''"
    "create_meeting_note_skips declined_ev" "should_skip_event declined_ev ''me@example.org''"
    "list_all self (attendees solo_ev)" "create_meeting_note_skips solo_ev"
    by (simp_all add: declined_ev_def solo_ev_def review_ev_def ex_ev_def
        create_meeting_note_skips_def should_skip_event_def get_str_def)
  show ?thesis
    using a declined_ev_kept by (simp add: main_declined main_review_empty)
qed


section \<open>Properties of the daily note merge\<close>

lemma strip_link_of_stem: "strip (link_of_stem s) = link_of_stem s"
proof -
  have a: "dropWhile is_space (link_of_stem s) = link_of_stem s"
    by (simp add: link_of_stem_def is_space_def)
  have b: "dropWhile is_space (rev (link_of_stem s)) = rev (link_of_stem s)"
    by (simp add: link_of_stem_def is_space_def)
  show ?thesis
    by (simp add: strip_def rstrip_def a b)
qed

lemma stem_of_link_of_stem: "stem_of_link (link_of_stem s) = s"
  by (simp add: stem_of_link_def strip_link_of_stem Let_def) (simp add: link_of_stem_def)

lemma link_of_stem_inject: "link_of_stem s = link_of_stem t \<longleftrightarrow> s = t"
  by (simp add: link_of_stem_def)

lemma distinct_foldl_append_new: "distinct acc \<Longrightarrow> distinct (foldl append_new acc xs)"
  by (induction xs arbitrary: acc) (simp_all add: append_new_def)

lemma set_foldl_append_new: "set (foldl append_new acc xs) = set acc \<union> set xs"
  by (induction xs arbitrary: acc) (auto simp: append_new_def)

lemma distinct_new_meeting_links: "distinct (new_meeting_links mf)"
  by (simp add: new_meeting_links_def distinct_foldl_append_new)

lemma distinct_all_links: "distinct (all_links find_note existing new_links)"
proof -
  have inj: "inj_on (\<lambda>stem. (get_meeting_start_time (find_note stem), link_of_stem stem)) A" for A
    by (rule inj_onI) (simp add: link_of_stem_inject)
  have inj2: "inj_on snd ((\<lambda>stem. (get_meeting_start_time (find_note stem), link_of_stem stem)) ` A)" for A
    by (rule inj_onI) (auto simp: link_of_stem_inject)
  show ?thesis
    unfolding all_links_def Let_def
    by (simp add: distinct_map inj inj2)
qed

lemma set_all_links:
  "set (all_links find_note existing new_links)
     = link_of_stem ` (stem_of_link ` set existing \<union> stem_of_link ` set new_links)"
  unfolding all_links_def Let_def by (simp add: image_Un image_image)

text \<open>Every link of the merged list carries the start time found for its note.\<close>

lemma all_links_sorted:
  "sorted (map (\<lambda>link. (get_meeting_start_time (find_note (stem_of_link link)), link))
             (all_links find_note existing new_links))"
proof -
  define mt where "mt = map (\<lambda>stem. (get_meeting_start_time (find_note stem), link_of_stem stem))
      (remdups (map stem_of_link existing @ map stem_of_link new_links))"
  have eq: "(get_meeting_start_time (find_note (stem_of_link (snd p))), snd p) = p"
    if "p \<in> set (sort mt)" for p
    using that by (auto simp: mt_def stem_of_link_of_stem)
  have "map (\<lambda>link. (get_meeting_start_time (find_note (stem_of_link link)), link))
             (all_links find_note existing new_links)
        = map (\<lambda>p. (get_meeting_start_time (find_note (stem_of_link (snd p))), snd p)) (sort mt)"
    by (simp add: all_links_def Let_def mt_def comp_def)
  also have "\<dots> = map (\<lambda>p. p) (sort mt)"
    by (rule map_cong) (simp_all add: eq)
  finally show ?thesis by simp
qed

lemma distinct_keep_first:
  "distinct (map snd acc) \<Longrightarrow> distinct (map snd (foldl keep_first acc es))"
  by (induction es arbitrary: acc) (simp_all add: keep_first_def)

lemma distinct_unique_entries:
  "distinct (map snd (sort_key fst (foldl keep_first [] es)))"
proof -
  have "distinct (map snd (foldl keep_first [] es))"
    by (rule distinct_keep_first) simp
  then have "distinct (foldl keep_first [] es) \<and> inj_on snd (set (foldl keep_first [] es))"
    by (simp add: distinct_map)
  then show ?thesis
    by (simp add: distinct_map)
qed

lemma unique_entries_sorted: "sorted (map fst (sort_key fst es))"
  by simp

lemma unique_entries_stable:
  "filter (\<lambda>e. fst e = k) (sort_key fst es) = filter (\<lambda>e. fst e = k) es"
  by (rule sort_key_stable)

lemma scan_line_before:
  assumes "\<not> in_list st" "\<not> list_ended st" "\<not> link_shaped l"
  shows "scan_line st l = st\<lparr>before_list := before_list st @ [l]\<rparr>"
  using assms by (simp add: scan_line_def link_shaped_def)

lemma scan_before:
  assumes "\<not> in_list st" "\<not> list_ended st" "\<forall>l \<in> set B. \<not> link_shaped l"
  shows "foldl scan_line st B = st\<lparr>before_list := before_list st @ B\<rparr>"
  using assms
proof (induction B arbitrary: st)
  case Nil
  then show ?case by simp
next
  case (Cons l B)
  have "scan_line st l = st\<lparr>before_list := before_list st @ [l]\<rparr>"
    using Cons.prems by (simp add: scan_line_before)
  moreover have "foldl scan_line (st\<lparr>before_list := before_list st @ [l]\<rparr>) B
      = st\<lparr>before_list := before_list st @ [l]\<rparr>
          \<lparr>before_list := before_list (st\<lparr>before_list := before_list st @ [l]\<rparr>) @ B\<rparr>"
    using Cons.prems by (intro Cons.IH) simp_all
  ultimately show ?case by simp
qed

lemma scan_line_link:
  assumes "\<not> list_ended st" "link_shaped l"
  shows "scan_line st l
           = st\<lparr>in_list := True, existing_links := List.insert (strip l) (existing_links st)\<rparr>"
  using assms by (simp add: scan_line_def link_shaped_def)

lemma scan_links:
  assumes "\<not> list_ended st" "\<forall>l \<in> set L. link_shaped l"
  shows "foldl scan_line st L
           = st\<lparr>in_list := (in_list st \<or> L \<noteq> []),
                 existing_links := foldl (\<lambda>acc l. List.insert (strip l) acc) (existing_links st) L\<rparr>"
  using assms
proof (induction L arbitrary: st)
  case Nil
  then show ?case by simp
next
  case (Cons l L)
  let ?st = "st\<lparr>in_list := True, existing_links := List.insert (strip l) (existing_links st)\<rparr>"
  have "scan_line st l = ?st"
    using Cons.prems by (simp add: scan_line_link)
  moreover have "foldl scan_line ?st L
      = ?st\<lparr>in_list := (in_list ?st \<or> L \<noteq> []),
            existing_links := foldl (\<lambda>acc l. List.insert (strip l) acc) (existing_links ?st) L\<rparr>"
    using Cons.prems by (intro Cons.IH) simp_all
  ultimately show ?case by simp
qed

lemma scan_line_ended:
  assumes "list_ended st"
  shows "scan_line st l = st\<lparr>after_list := after_list st @ [l]\<rparr>"
  using assms by (simp add: scan_line_def)

lemma scan_ended:
  assumes "list_ended st"
  shows "foldl scan_line st A = st\<lparr>after_list := after_list st @ A\<rparr>"
  using assms
proof (induction A arbitrary: st)
  case Nil
  then show ?case by simp
next
  case (Cons l A)
  have "foldl scan_line (st\<lparr>after_list := after_list st @ [l]\<rparr>) A
      = st\<lparr>after_list := after_list st @ [l]\<rparr>
          \<lparr>after_list := after_list (st\<lparr>after_list := after_list st @ [l]\<rparr>) @ A\<rparr>"
    using Cons.prems by (intro Cons.IH) simp
  then show ?case
    using Cons.prems by (simp add: scan_line_ended)
qed

lemma scan_after:
  assumes "in_list st" "\<not> link_shaped a" "strip a \<noteq> []"
  shows "foldl scan_line st (a # A) = st\<lparr>list_ended := True, after_list := after_list st @ a # A\<rparr>"
proof -
  have "scan_line st a = st\<lparr>list_ended := True, after_list := after_list st @ [a]\<rparr>"
    using assms by (simp add: scan_line_def link_shaped_def)
  then show ?thesis
    by (simp add: scan_ended)
qed

lemma set_inserted_links:
  "set (foldl (\<lambda>acc l. List.insert (strip l) acc) acc L) = set acc \<union> strip ` set L"
  by (induction L arbitrary: acc) auto

text \<open>The three zones of a section, as the scanner tells them apart.\<close>

lemma scan_zones:
  assumes B: "\<forall>l \<in> set B. \<not> link_shaped l"
    and L: "\<forall>l \<in> set L. link_shaped l"
    and A: "A = [] \<or> (L \<noteq> [] \<and> \<not> link_shaped (hd A) \<and> strip (hd A) \<noteq> [])"
  shows "foldl scan_line scan_start (B @ L @ A)
           = \<lparr>in_list = (L \<noteq> []), list_ended = (A \<noteq> []),
               existing_links = foldl (\<lambda>acc l. List.insert (strip l) acc) [] L,
               before_list = B, after_list = A\<rparr>"
proof -
  let ?X = "foldl (\<lambda>acc l. List.insert (strip l) acc) [] L"
  have b: "foldl scan_line scan_start B = scan_start\<lparr>before_list := B\<rparr>"
    using scan_before [of scan_start B] B by (simp add: scan_start_def)
  have l: "foldl scan_line (scan_start\<lparr>before_list := B\<rparr>) L
      = \<lparr>in_list = (L \<noteq> []), list_ended = False, existing_links = ?X,
          before_list = B, after_list = []\<rparr>"
    using scan_links [of "scan_start\<lparr>before_list := B\<rparr>" L] L by (simp add: scan_start_def)
  show ?thesis
  proof (cases A)
    case Nil
    then show ?thesis by (simp add: b l)
  next
    case (Cons a A')
    then have "L \<noteq> []" "\<not> link_shaped a" "strip a \<noteq> []"
      using A by simp_all
    then show ?thesis
      using scan_after [of "\<lparr>in_list = True, list_ended = False, existing_links = ?X,
          before_list = B, after_list = []\<rparr>" a A']
      by (simp add: b l Cons)
  qed
qed

lemma all_links_cong:
  assumes "set existing = set existing'"
  shows "all_links find_note existing new_links = all_links find_note existing' new_links"
proof -
  let ?f = "\<lambda>stem. (get_meeting_start_time (find_note stem), link_of_stem stem)"
  let ?xs = "map ?f (remdups (map stem_of_link existing @ map stem_of_link new_links))"
  let ?ys = "map ?f (remdups (map stem_of_link existing' @ map stem_of_link new_links))"
  have inj: "inj_on ?f A" for A
    by (rule inj_onI) (simp add: link_of_stem_inject)
  have "sort ?xs = sort ?ys"
  proof (rule sorted_distinct_set_unique)
    show "set (sort ?xs) = set (sort ?ys)"
      using assms by simp
  qed (simp_all add: distinct_map inj)
  then show ?thesis
    by (simp add: all_links_def Let_def)
qed

lemma find_close_bound: "find_close r = Some k \<Longrightarrow> k + 2 \<le> length r"
proof (induction r arbitrary: k)
  case Nil
  then show ?case by simp
next
  case (Cons c cs)
  show ?case
  proof (cases "prefix '']]'' (c # cs)")
    case True
    then have "2 \<le> length (c # cs)"
      by (auto simp: prefix_def)
    moreover have "k = 0"
      using True Cons.prems by (simp del: prefix_code)
    ultimately show ?thesis by simp
  next
    case False
    with Cons.prems obtain j where "find_close cs = Some j" "k = Suc j"
      by (auto simp del: prefix_code split: if_splits)
    with Cons.IH show ?thesis by simp
  qed
qed

lemma match_item_bound: "match_item s = Some n \<Longrightarrow> 0 < n \<and> n \<le> length s"
proof -
  assume m: "match_item s = Some n"
  then have p: "prefix ''- [['' s"
    by (simp add: match_item_def split: if_splits)
  then have len: "4 \<le> length s"
    by (auto simp: prefix_def)
  from m p obtain k where k: "find_close (drop 4 s) = Some k"
    and n: "n = (if prefix [nl] (drop (k + 6) s) then k + 7 else k + 6)"
    by (auto simp: match_item_def split: option.splits)
  have kb: "k + 6 \<le> length s"
    using find_close_bound [OF k] len by simp
  show ?thesis
  proof (cases "prefix [nl] (drop (k + 6) s)")
    case True
    then have "drop (k + 6) s \<noteq> []" by auto
    then have "k + 6 < length s" by simp
    with n True show ?thesis by simp
  next
    case False
    with n kb show ?thesis by simp
  qed
qed

lemma match_items_bound: "match_items s \<le> length s"
proof (induction s rule: match_items.induct)
  case (1 s)
  show ?case
  proof (cases "match_item s")
    case None
    then show ?thesis by (simp add: match_items.simps)
  next
    case (Some n)
    then have "0 < n" "n \<le> length s"
      using match_item_bound by blast+
    moreover have "match_items (drop n s) \<le> length (drop n s)"
      using "1.IH" Some by simp
    ultimately show ?thesis
      using Some by (simp add: match_items.simps)
  qed
qed

lemma match_section_bound:
  assumes "match_section s = Some (a, b)"
  shows "a \<le> b \<and> b \<le> length s"
proof -
  let ?r = "drop (length planner_meetings_header) s"
  let ?ws = "takeWhile is_space ?r"
  let ?g = "length planner_meetings_header
              + (length ?ws - length (takeWhile (\<lambda>c. c \<noteq> nl) (rev ?ws)))"
  from assms have p: "prefix planner_meetings_header s" and a: "a = ?g" and b: "b = ?g + match_items (drop ?g s)"
    by (auto simp: match_section_def Let_def split: if_splits)
  have "length planner_meetings_header \<le> length s"
    using p by (auto simp: prefix_def)
  moreover have "length ?ws \<le> length ?r"
    by (rule length_takeWhile_le)
  ultimately have g: "?g \<le> length s"
    by simp
  have "match_items (drop ?g s) \<le> length s - ?g"
    using match_items_bound [of "drop ?g s"] by simp
  with g a b show ?thesis by simp
qed

lemma search_section_bound:
  "search_section bol s = Some (a, b) \<Longrightarrow> a \<le> b \<and> b \<le> length s"
proof (induction s arbitrary: bol a b)
  case Nil
  then show ?case by simp
next
  case (Cons c cs)
  show ?case
  proof (cases "if bol then match_section (c # cs) else None")
    case (Some span)
    then have "match_section (c # cs) = Some (a, b)"
      using Cons.prems by (auto split: if_splits)
    then show ?thesis by (rule match_section_bound)
  next
    case None
    with Cons.prems obtain a' b' where "search_section (c = nl) cs = Some (a', b')"
      and "a = Suc a'" "b = Suc b'"
      by auto
    with Cons.IH show ?thesis by auto
  qed
qed

text \<open>
  Claim C4, amended. The function variant, merging into a section whose lines are a
  header line, lines \<open>B\<close> that are no list items, list items \<open>L\<close> and lines \<open>A\<close> that start
  with a line which is neither empty nor a list item, keeps the text before the header,
  the header line, \<open>B\<close> (one empty line takes its place when there is none), \<open>A\<close> with
  every later line, empty or shaped like a list item, and the text from the next header
  on; only the list changes. Without a section it strips trailing white space from the
  note and appends the section. The class-based variant replaces the run of list items
  that follows the header line and its blank lines, adds a line break after it and keeps
  every character before and after that run; without a section it appends to the note.
\<close>

theorem merge_keeps_zones:
  "(find_sub content meetings_header = Some s
      \<and> (case find_from content [nl, CHR ''#''] (s + 1) of None \<Rightarrow> length content | Some e \<Rightarrow> e) = e
      \<and> split_nl (take (e - s) (drop s content)) = header # B @ L @ A
      \<and> list_all (\<lambda>l. \<not> link_shaped l) B \<and> list_all link_shaped L
      \<and> (A = [] \<or> (L \<noteq> [] \<and> \<not> link_shaped (hd A) \<and> strip (hd A) \<noteq> []))
    \<longrightarrow> update_daily_note_content find_note mf content
          = take s content
            @ join_nl (header # (if B = [] then [[]] else B)
                       @ all_links find_note (map strip L) (new_meeting_links mf) @ A)
            @ drop e content)
   \<and> (find_sub content meetings_header = None
    \<longrightarrow> update_daily_note_content find_note mf content
          = rstrip content @ [nl, nl] @ meetings_header @ [nl, nl]
            @ join_nl (new_meeting_links mf) @ [nl])
   \<and> (search_section True content = Some (s, e)
    \<longrightarrow> s \<le> e \<and> e \<le> length content
        \<and> create_daily_note start_time_of new_note_text (Some content) entries
          = take s content
            @ join_nl (list_items (sort_key fst (foldl keep_first []
                (map (\<lambda>link. (start_time_of link, link))
                   (findall_links (take (e - s) (drop s content))) @ entries))))
            @ [nl] @ drop e content)
   \<and> (search_section True content = None
    \<longrightarrow> create_daily_note start_time_of new_note_text (Some content) entries
          = content @ [nl] @ planner_meetings_header @ [nl, nl]
            @ join_nl (list_items (sort_key fst entries)) @ [nl])"
proof -
  have f: "update_daily_note_content find_note mf content
          = take s content
            @ join_nl (header # (if B = [] then [[]] else B)
                       @ all_links find_note (map strip L) (new_meeting_links mf) @ A)
            @ drop e content"
    if a: "find_sub content meetings_header = Some s"
      and b: "(case find_from content [nl, CHR ''#''] (s + 1) of None \<Rightarrow> length content | Some e \<Rightarrow> e) = e"
      and c: "split_nl (take (e - s) (drop s content)) = header # B @ L @ A"
      and bs: "list_all (\<lambda>l. \<not> link_shaped l) B" and ls: "list_all link_shaped L"
      and as: "A = [] \<or> (L \<noteq> [] \<and> \<not> link_shaped (hd A) \<and> strip (hd A) \<noteq> [])"
  proof -
    let ?X = "foldl (\<lambda>acc l. List.insert (strip l) acc) [] L"
    have z: "foldl scan_line scan_start (B @ L @ A)
           = \<lparr>in_list = (L \<noteq> []), list_ended = (A \<noteq> []), existing_links = ?X,
               before_list = B, after_list = A\<rparr>"
      using bs ls as by (intro scan_zones) (simp_all add: list_all_iff)
    have x: "all_links find_note ?X (new_meeting_links mf)
               = all_links find_note (map strip L) (new_meeting_links mf)"
      by (rule all_links_cong) (simp add: set_inserted_links)
    show ?thesis
      unfolding update_daily_note_content_section [OF a b c z]
      by (simp add: x)
  qed
  have g: "s \<le> e \<and> e \<le> length content" if "search_section True content = Some (s, e)"
    using that by (rule search_section_bound)
  show ?thesis
    using f g by (simp add: update_daily_note_content_def create_daily_note_def Let_def)
qed

theorem merge_keeps_zones_witness:
  "update_daily_note_content (\<lambda>stem. None) review_files team_note = team_note_merged
   \<and> update_daily_note_content (\<lambda>stem. None) review_files plain_note = once_merged
   \<and> create_daily_note listed_times [] (Some planner_listed_note) [(''08:30'', ''[[W]]'')]
       = planner_meetings_header @ [nl, nl] @ ''- [[Y]]'' @ [nl] @ ''- [[W]]'' @ [nl]
         @ ''- [[Z]]'' @ [nl] @ ''- [[X]]'' @ [nl]
   \<and> create_daily_note listed_times [] (Some plain_note) [(''08:30'', ''[[W]]'')]
       = plain_note @ [nl] @ planner_meetings_header @ [nl, nl] @ ''- [[W]]'' @ [nl]"
proof -
  have a: "find_sub team_note meetings_header = Some 6" by code_simp
  have b: "(case find_from team_note [nl, CHR ''#''] (6 + 1) of
              None \<Rightarrow> length team_note | Some e \<Rightarrow> e) = 59" by code_simp
  have c: "split_nl (take (59 - 6) (drop 6 team_note))
             = meetings_header # [''Today:''] @ [''- [[B]]'', ''- [[A]]''] @ [''notes'', [], ''- [[C]]'']"
    by code_simp
  have d: "list_all (\<lambda>l. \<not> link_shaped l) [''Today:'']" "list_all link_shaped [''- [[B]]'', ''- [[A]]'']"
    "\<not> link_shaped (hd [''notes'', [], ''- [[C]]''])" "strip (hd [''notes'', [], ''- [[C]]'']) \<noteq> []"
    by code_simp+
  have e: "take 6 team_note @
       join_nl (meetings_header # (if [''Today:''] = [] then [[]] else [''Today:''])
          @ all_links (\<lambda>stem. None) (map strip [''- [[B]]'', ''- [[A]]'']) (new_meeting_links review_files)
          @ [''notes'', [], ''- [[C]]''])
       @ drop 59 team_note = team_note_merged"
    by code_simp
  have f: "find_sub plain_note meetings_header = None" by code_simp
  have g: "rstrip plain_note @ [nl, nl] @ meetings_header @ [nl, nl]
            @ join_nl (new_meeting_links review_files) @ [nl] = once_merged" by code_simp
  have h: "search_section True planner_listed_note = Some (23, 47)" by code_simp
  have i: "take 23 planner_listed_note
            @ join_nl (list_items (sort_key fst (foldl keep_first []
                (map (\<lambda>link. (listed_times link, link))
                   (findall_links (take (47 - 23) (drop 23 planner_listed_note)))
                 @ [(''08:30'', ''[[W]]'')]))))
            @ [nl] @ drop 47 planner_listed_note
           = planner_meetings_header @ [nl, nl] @ ''- [[Y]]'' @ [nl] @ ''- [[W]]'' @ [nl]
         @ ''- [[Z]]'' @ [nl] @ ''- [[X]]'' @ [nl]" by code_simp
  have j: "search_section True plain_note = None" by code_simp
  have k: "join_nl (list_items (sort_key fst [(''08:30'', ''[[W]]'')])) = ''- [[W]]''" by code_simp
  show ?thesis
    using merge_keeps_zones [of team_note 6 59 meetings_header "[''Today:'']"
        "[''- [[B]]'', ''- [[A]]'']" "[''notes'', [], ''- [[C]]'']" "\<lambda>stem. None" review_files]
      merge_keeps_zones [where content = plain_note and find_note = "\<lambda>stem. None"
        and mf = review_files and start_time_of = listed_times and new_note_text = "[]"
        and entries = "[(''08:30'', ''[[W]]'')]"]
      merge_keeps_zones [where content = planner_listed_note and s = 23 and e = 47
        and start_time_of = listed_times and new_note_text = "[]"
        and entries = "[(''08:30'', ''[[W]]'')]"]
    unfolding a b c e f g h i j k using d by simp
qed

text \<open>
  Claim C4 says that a merge rewrites only the list of the section. Where nothing stands
  between the header and the first item, the function variant puts an empty line there,
  as its comment says it will.
\<close>

theorem blank_line_inserted_after_header_counterexample:
  "update_daily_note_content (\<lambda>stem. None) [(''09:00'', ''MEETINGS/A.md'')] tight_note
     = meetings_header @ [nl, nl] @ ''- [[A]]'' @ [nl] @ ''notes''
   \<and> update_daily_note_content (\<lambda>stem. None) [(''09:00'', ''MEETINGS/A.md'')] tight_note
     \<noteq> tight_note"
  by code_simp


section \<open>Repeated links in the class-based variant\<close>

lemma new_note_lists_every_entry:
  "create_daily_note start_time_of note_head None standup_entries = note_head @ standup_twice"
  by (simp add: create_daily_note_def standup_entries_def standup_twice_def)

lemma appended_section_lists_every_entry:
  "create_daily_note start_time_of note_head (Some plain_note) standup_entries
     = plain_note @ [nl] @ planner_meetings_header @ [nl, nl] @ standup_twice"
proof -
  have a: "search_section True plain_note = None" by code_simp
  have b: "join_nl (list_items (sort_key fst standup_entries))
             = ''- [[2026-02-26 - Standup]]'' @ [nl] @ ''- [[2026-02-26 - Standup]]''"
    by code_simp
  show ?thesis
    by (simp add: create_daily_note_def a b standup_twice_def)
qed

lemma sanitize_standup: "planner_sanitize_filename ''Standup'' = ''Standup''"
  by code_simp

lemma standup_kept: "\<not> create_meeting_note_skips standup_am" "\<not> create_meeting_note_skips standup_pm"
  by (simp_all add: create_meeting_note_skips_def standup_am_def standup_pm_def ex_ev_def get_str_def)

lemma standup_fields:
  "get_str (summary standup_am) ''Untitled Meeting'' = ''Standup''"
  "get_str (summary standup_pm) ''Untitled Meeting'' = ''Standup''"
  "get_str (dateTime (start standup_am)) '''' = ''2026-02-26T09:00:00''"
  "get_str (dateTime (start standup_pm)) '''' = ''2026-02-26T16:00:00''"
  "get_sort_key standup_am = ''2026-02-26T09:00:00''"
  "get_sort_key standup_pm = ''2026-02-26T16:00:00''"
  by (simp_all add: standup_am_def standup_pm_def get_str_def get_sort_key_def)

lemma planner_create_standup:
  "planner_create_meeting_note host0 ''2026-02-26'' feb26 standup_am fs =
     (Some ''[[2026-02-26 - Standup]]'',
      if fs standup_path \<noteq> None then fs else fs(standup_path \<mapsto> render_note host0 standup_am))"
  "planner_create_meeting_note host0 ''2026-02-26'' feb26 standup_pm fs =
     (Some ''[[2026-02-26 - Standup]]'',
      if fs standup_path \<noteq> None then fs else fs(standup_path \<mapsto> render_note host0 standup_pm))"
  unfolding planner_create_meeting_note_def standup_fields sanitize_standup strftime_feb26 Let_def
  by (simp_all add: standup_kept standup_path_def)

lemma standup_sorted: "sort_key get_sort_key [standup_am, standup_pm] = [standup_am, standup_pm]"
  by (simp add: standup_fields)

lemma standup_daily_file:
  "''DAILY_NOTES/'' @ strftime feb26 ''%Y'' @ ''/'' @ strftime feb26 ''%m-%B'' @ ''/''
     @ ''2026-02-26'' @ '' '' @ strftime feb26 ''%A'' @ ''.md'' = daily_path"
  unfolding strftime_feb26 by (simp add: daily_path_def)

lemma standup_paths_differ: "daily_path \<noteq> standup_path" "standup_path \<noteq> daily_path"
  by (simp_all add: daily_path_def standup_path_def)

lemma process_calendar_events_step:
  assumes "strptime h date_str = Some dt"
    and "foldl (collect_entry h date_str dt) ([], fs) (sort_key get_sort_key events) = (entries, fs1)"
    and "entries \<noteq> []"
    and "''DAILY_NOTES/'' @ strftime dt ''%Y'' @ ''/'' @ strftime dt ''%m-%B'' @ ''/''
           @ date_str @ '' '' @ strftime dt ''%A'' @ ''.md'' = daily_file"
  shows "process_calendar_events h start_time_of new_note_text events date_str fs
           = Some (fs1(daily_file \<mapsto>
                create_daily_note (start_time_of fs1) new_note_text (fs1 daily_file) entries))"
  using assms by (simp add: process_calendar_events_def Let_def)

lemma run_lists_note_twice:
  "process_calendar_events host0 start_time_of note_head [standup_am, standup_pm]
       ''2026-02-26'' Map.empty
     = Some [standup_path \<mapsto> render_note host0 standup_am,
             daily_path \<mapsto> note_head @ standup_twice]"
proof -
  have p: "strptime host0 ''2026-02-26'' = Some feb26"
    by (simp add: host0_def)
  have l: "foldl (collect_entry host0 ''2026-02-26'' feb26) ([], Map.empty)
             (sort_key get_sort_key [standup_am, standup_pm])
             = (standup_entries, [standup_path \<mapsto> render_note host0 standup_am])"
    unfolding standup_sorted
    by (simp add: collect_entry_def planner_create_standup standup_fields standup_entries_def)
  have ne: "standup_entries \<noteq> []"
    by (simp add: standup_entries_def)
  show ?thesis
    unfolding process_calendar_events_step [OF p l ne standup_daily_file]
    by (simp add: standup_paths_differ new_note_lists_every_entry)
qed

text \<open>
  Claim C2: after every merge each link stands at most once in the meetings section. The
  merge into an existing section removes repeated links in both variants
  (\<open>distinct_all_links\<close>, \<open>distinct_unique_entries\<close>), and so does the function variant when it
  appends the section (\<open>distinct_new_meeting_links\<close>). \<open>create_daily_note\<close> of the
  class-based variant removes them only in that branch: a new daily note, and a section
  appended to a note that has none, list every entry given. Two events of one title on one
  day give the same link twice, and the run writes it twice.
\<close>

theorem new_daily_note_repeats_link:
  "create_daily_note start_time_of note_head None standup_entries = note_head @ standup_twice
   \<and> create_daily_note start_time_of note_head (Some plain_note) standup_entries
       = plain_note @ [nl] @ planner_meetings_header @ [nl, nl] @ standup_twice
   \<and> process_calendar_events host0 fs_start_time_of note_head [standup_am, standup_pm]
         ''2026-02-26'' Map.empty
       = Some [standup_path \<mapsto> render_note host0 standup_am,
               daily_path \<mapsto> note_head @ standup_twice]
   \<and> standup_twice = ''- [[2026-02-26 - Standup]]'' @ [nl] @ ''- [[2026-02-26 - Standup]]'' @ [nl]"
  using new_note_lists_every_entry appended_section_lists_every_entry run_lists_note_twice
  by (simp add: standup_twice_def)


section \<open>Order of the links\<close>

lemma foldl_append_new_subseq:
  "\<exists>ps. subseq ps xs \<and> foldl append_new acc (map g xs) = acc @ map g ps"
proof (induction xs arbitrary: acc)
  case Nil
  show ?case by simp
next
  case (Cons x xs)
  show ?case
  proof (cases "g x \<in> set acc")
    case True
    then have a: "append_new acc (g x) = acc" by (simp add: append_new_def)
    obtain ps where "subseq ps xs" "foldl append_new acc (map g xs) = acc @ map g ps"
      using Cons.IH by blast
    then have "subseq ps (x # xs) \<and> foldl append_new acc (map g (x # xs)) = acc @ map g ps"
      using a by (simp add: list_emb_Cons)
    then show ?thesis ..
  next
    case False
    then have a: "append_new acc (g x) = acc @ [g x]" by (simp add: append_new_def)
    obtain ps where "subseq ps xs"
      "foldl append_new (acc @ [g x]) (map g xs) = (acc @ [g x]) @ map g ps"
      using Cons.IH by blast
    then have "subseq (x # ps) (x # xs)
        \<and> foldl append_new acc (map g (x # xs)) = acc @ map g (x # ps)"
      using a by simp
    then show ?thesis ..
  qed
qed

lemma subseq_sorted_wrt:
  "subseq xs ys \<Longrightarrow> sorted_wrt P ys \<Longrightarrow> sorted_wrt P xs"
proof (induction rule: list_emb.induct)
  case (list_emb_Nil ys)
  show ?case by simp
next
  case (list_emb_Cons xs ys y)
  then show ?case by simp
next
  case (list_emb_Cons2 x y xs ys)
  have "z \<in> set ys" if "z \<in> set xs" for z
    using list_emb_Cons2.hyps(2) that by (rule list_emb_set) simp
  with list_emb_Cons2 show ?case by auto
qed

lemma subseq_sorted_key:
  assumes "subseq ps qs" and "sorted (map f qs)"
  shows "sorted (map f ps)"
  using subseq_sorted_wrt [OF subseq_map [OF assms(1), of f] assms(2)] .

lemma new_meeting_links_ordered:
  "\<exists>ps. subseq ps (sort_key fst mf) \<and> sorted (map fst ps)
        \<and> new_meeting_links mf = map (\<lambda>m. link_of_stem (path_stem (snd m))) ps"
proof -
  obtain ps where a: "subseq ps (sort_key fst mf)"
    and b: "foldl append_new [] (map (\<lambda>m. link_of_stem (path_stem (snd m))) (sort_key fst mf))
            = [] @ map (\<lambda>m. link_of_stem (path_stem (snd m))) ps"
    using foldl_append_new_subseq by blast
  have "sorted (map fst ps)"
    using a by (rule subseq_sorted_key) simp
  with a b show ?thesis
    by (auto simp: new_meeting_links_def)
qed

lemma collect_entries_subseq:
  "\<exists>ps. subseq ps evs \<and>
     map fst (fst (foldl (collect_entry h d dt) (acc, fs) evs))
       = map fst acc @ map (\<lambda>ev. get_str (dateTime (start ev)) '''') ps"
proof (induction evs arbitrary: acc fs)
  case Nil
  show ?case by simp
next
  case (Cons ev evs)
  obtain r fs' where r: "planner_create_meeting_note h d dt ev fs = (r, fs')"
    by (cases "planner_create_meeting_note h d dt ev fs")
  show ?case
  proof (cases r)
    case None
    then have a: "collect_entry h d dt (acc, fs) ev = (acc, fs')"
      using r by (simp add: collect_entry_def)
    obtain ps where "subseq ps evs"
      "map fst (fst (foldl (collect_entry h d dt) (acc, fs') evs))
         = map fst acc @ map (\<lambda>ev. get_str (dateTime (start ev)) '''') ps"
      using Cons.IH by blast
    then have "subseq ps (ev # evs) \<and>
      map fst (fst (foldl (collect_entry h d dt) (acc, fs) (ev # evs)))
         = map fst acc @ map (\<lambda>ev. get_str (dateTime (start ev)) '''') ps"
      using a by (simp add: list_emb_Cons)
    then show ?thesis ..
  next
    case (Some w)
    then have a: "collect_entry h d dt (acc, fs) ev
        = (acc @ [(get_str (dateTime (start ev)) '''', w)], fs')"
      using r by (simp add: collect_entry_def)
    obtain ps where "subseq ps evs"
      "map fst (fst (foldl (collect_entry h d dt)
          (acc @ [(get_str (dateTime (start ev)) '''', w)], fs') evs))
         = map fst (acc @ [(get_str (dateTime (start ev)) '''', w)])
           @ map (\<lambda>ev. get_str (dateTime (start ev)) '''') ps"
      using Cons.IH by blast
    then have "subseq (ev # ps) (ev # evs) \<and>
      map fst (fst (foldl (collect_entry h d dt) (acc, fs) (ev # evs)))
         = map fst acc @ map (\<lambda>ev. get_str (dateTime (start ev)) '''') (ev # ps)"
      using a by simp
    then show ?thesis ..
  qed
qed

lemma subseq_subset: "subseq xs ys \<Longrightarrow> set xs \<subseteq> set ys"
proof
  fix z assume "subseq xs ys" "z \<in> set xs"
  then show "z \<in> set ys" by (rule list_emb_set) simp
qed

lemma run_entries_sorted:
  assumes "list_all (\<lambda>ev. dateTime (start ev) \<noteq> None) events"
  shows "sorted (map fst (fst (foldl (collect_entry h d dt) ([], fs)
                   (sort_key get_sort_key events))))"
proof -
  have "\<exists>ps. subseq ps (sort_key get_sort_key events) \<and>
      map fst (fst (foldl (collect_entry h d dt) ([], fs) (sort_key get_sort_key events)))
       = map (\<lambda>ev. get_str (dateTime (start ev)) '''') ps"
    using collect_entries_subseq [of "sort_key get_sort_key events" h d dt "[]" fs] by simp
  then obtain ps where a: "subseq ps (sort_key get_sort_key events)"
    and b: "map fst (fst (foldl (collect_entry h d dt) ([], fs) (sort_key get_sort_key events)))
       = map (\<lambda>ev. get_str (dateTime (start ev)) '''') ps"
    by blast
  have "set ps \<subseteq> set events"
    using subseq_subset [OF a] by simp
  then have "\<forall>ev \<in> set ps. get_str (dateTime (start ev)) '''' = get_sort_key ev"
    using assms by (fastforce simp: list_all_iff get_str_def get_sort_key_def split: option.splits)
  then have c: "map (\<lambda>ev. get_str (dateTime (start ev)) '''') ps = map get_sort_key ps"
    by simp
  have "sorted (map get_sort_key ps)"
    using a by (rule subseq_sorted_key) simp
  then show ?thesis
    by (simp add: b c)
qed

lemma sanitize_offsite:
  "planner_sanitize_filename ''Offsite'' = ''Offsite''"
  "planner_sanitize_filename ''Overnight'' = ''Overnight''"
  by code_simp+

lemma offsite_kept:
  "\<not> create_meeting_note_skips offsite_ev" "\<not> create_meeting_note_skips overnight_ev"
  by (simp_all add: create_meeting_note_skips_def offsite_ev_def overnight_ev_def ex_ev_def get_str_def)

lemma offsite_fields:
  "get_str (summary offsite_ev) ''Untitled Meeting'' = ''Offsite''"
  "get_str (summary overnight_ev) ''Untitled Meeting'' = ''Overnight''"
  "get_str (dateTime (start offsite_ev)) '''' = []"
  "get_str (dateTime (start overnight_ev)) '''' = ''2026-02-25T23:30:00''"
  "get_sort_key offsite_ev = ''2026-02-26T00:00:00''"
  "get_sort_key overnight_ev = ''2026-02-25T23:30:00''"
  by (simp_all add: offsite_ev_def overnight_ev_def get_str_def get_sort_key_def)

lemma planner_create_offsite:
  "planner_create_meeting_note host0 ''2026-02-26'' feb26 offsite_ev fs =
     (Some ''[[2026-02-26 - Offsite]]'',
      if fs offsite_path \<noteq> None then fs else fs(offsite_path \<mapsto> render_note host0 offsite_ev))"
  "planner_create_meeting_note host0 ''2026-02-26'' feb26 overnight_ev fs =
     (Some ''[[2026-02-26 - Overnight]]'',
      if fs overnight_path \<noteq> None then fs else fs(overnight_path \<mapsto> render_note host0 overnight_ev))"
  unfolding planner_create_meeting_note_def offsite_fields sanitize_offsite strftime_feb26 Let_def
  by (simp_all add: offsite_kept offsite_path_def overnight_path_def)

lemma offsite_sorted:
  "sort_key get_sort_key [offsite_ev, overnight_ev] = [overnight_ev, offsite_ev]"
  by (simp add: offsite_fields)

lemma offsite_paths_differ:
  "daily_path \<noteq> offsite_path" "daily_path \<noteq> overnight_path" "offsite_path \<noteq> overnight_path"
  "overnight_path \<noteq> offsite_path"
  by (simp_all add: daily_path_def offsite_path_def overnight_path_def)

lemma run_collects_overnight_first:
  "foldl (collect_entry host0 ''2026-02-26'' feb26) ([], Map.empty)
      (sort_key get_sort_key [offsite_ev, overnight_ev])
     = (overnight_entries,
        [overnight_path \<mapsto> render_note host0 overnight_ev,
         offsite_path \<mapsto> render_note host0 offsite_ev])"
  unfolding offsite_sorted
  by (simp add: collect_entry_def planner_create_offsite offsite_fields overnight_entries_def
      offsite_paths_differ)

text \<open>
  A new daily note lists the entries in the order the run collected them, which is the
  order of \<open>get_sort_key\<close>: an all-day event counts there as midnight of its date, while
  the start time of its entry is empty. An all-day event of the day and an event that began
  the evening before come out as the evening event first, the empty start time second,
  where the comment in \<open>create_daily_note\<close> says \<open>already sorted by start time\<close>. The branch
  that appends a section sorts the same entries and puts the empty start time first.
\<close>

lemma new_daily_note_keeps_run_order:
  "process_calendar_events host0 start_time_of note_head [offsite_ev, overnight_ev]
       ''2026-02-26'' Map.empty
     = Some [overnight_path \<mapsto> render_note host0 overnight_ev,
             offsite_path \<mapsto> render_note host0 offsite_ev,
             daily_path \<mapsto> note_head @ ''- [[2026-02-26 - Overnight]]'' @ [nl]
                           @ ''- [[2026-02-26 - Offsite]]'' @ [nl]]"
  "map fst overnight_entries = [''2026-02-25T23:30:00'', []]"
  "\<not> sorted (map fst overnight_entries)"
  "create_daily_note time_of note_head (Some plain_note) overnight_entries
     = plain_note @ [nl] @ planner_meetings_header @ [nl, nl] @ ''- [[2026-02-26 - Offsite]]'' @ [nl]
       @ ''- [[2026-02-26 - Overnight]]'' @ [nl]"
proof -
  have p: "strptime host0 ''2026-02-26'' = Some feb26"
    by (simp add: host0_def)
  have ne: "overnight_entries \<noteq> []"
    by (simp add: overnight_entries_def)
  have n: "create_daily_note (start_time_of [overnight_path \<mapsto> render_note host0 overnight_ev,
         offsite_path \<mapsto> render_note host0 offsite_ev]) note_head None overnight_entries
      = note_head @ ''- [[2026-02-26 - Overnight]]'' @ [nl] @ ''- [[2026-02-26 - Offsite]]'' @ [nl]"
    by (simp add: create_daily_note_def overnight_entries_def)
  show "process_calendar_events host0 start_time_of note_head [offsite_ev, overnight_ev]
       ''2026-02-26'' Map.empty
     = Some [overnight_path \<mapsto> render_note host0 overnight_ev,
             offsite_path \<mapsto> render_note host0 offsite_ev,
             daily_path \<mapsto> note_head @ ''- [[2026-02-26 - Overnight]]'' @ [nl]
                           @ ''- [[2026-02-26 - Offsite]]'' @ [nl]]"
    unfolding process_calendar_events_step [OF p run_collects_overnight_first ne standup_daily_file]
    by (simp add: offsite_paths_differ n)
  show "map fst overnight_entries = [''2026-02-25T23:30:00'', []]"
    by (simp add: overnight_entries_def)
  show "\<not> sorted (map fst overnight_entries)"
    by (simp add: overnight_entries_def)
  have a: "search_section True plain_note = None" by code_simp
  have b: "join_nl (list_items (sort_key fst overnight_entries))
             = ''- [[2026-02-26 - Offsite]]'' @ [nl] @ ''- [[2026-02-26 - Overnight]]''"
    by code_simp
  show "create_daily_note time_of note_head (Some plain_note) overnight_entries
     = plain_note @ [nl] @ planner_meetings_header @ [nl, nl] @ ''- [[2026-02-26 - Offsite]]'' @ [nl]
       @ ''- [[2026-02-26 - Overnight]]'' @ [nl]"
    by (simp add: create_daily_note_def a b)
qed

text \<open>
  Claim C3 says that links of equal or unknown start time are ordered by the link. The
  class-based variant sorts by the start time alone and keeps the earlier order of such
  links, in a merge into a section and in a section it appends, and so does the function
  variant when it appends a section: two all-day meetings stay in the order \<open>Retro\<close>,
  \<open>Demo\<close>.
\<close>

theorem ties_keep_previous_order_counterexample:
  "create_daily_note (\<lambda>link. []) [] (Some planner_unsorted_note) [([], ''[[2026-02-26 - Retro]]'')]
     = planner_unsorted_note
   \<and> create_daily_note (\<lambda>link. []) [] (Some ''Notes'')
        [([], ''[[2026-02-26 - Retro]]''), ([], ''[[2026-02-26 - Demo]]'')]
     = ''Notes'' @ [nl] @ planner_unsorted_note
   \<and> update_daily_note_content (\<lambda>stem. None) retro_demo_files ''Notes''
     = ''Notes'' @ [nl, nl] @ unsorted_note
   \<and> ''- [[2026-02-26 - Demo]]'' < ''- [[2026-02-26 - Retro]]''"
  by code_simp

text \<open>
  Claim C3, amended. Every merge that sorts writes the links in ascending order of start
  time, the unknown (empty) start time before every other. Function variant: in a merge
  into a section the start time of every link is read from its note and links of equal
  start time are ordered by their text (\<open>all_links\<close>); an appended section lists the pairs
  given, less repeated links, by the start time given with them, pairs of equal start time
  in the order given. Class-based variant: a merge into a section sorts the entries left
  after removing repeated links by start time alone, and an appended section sorts the
  entries given in the same way; entries of equal start time keep their order. A new daily
  note lists the entries in the order given, which is ascending when the entries are, and
  the run gives them so when every event has a \<open>dateTime\<close>. Existing links of start times
  10:00, unknown and 09:00 with a new link of 08:30 come out as unknown, 08:30, 09:00,
  10:00 in both variants.
\<close>

theorem merged_links_ordered:
  "sorted (map (\<lambda>link. (get_meeting_start_time (find_note (stem_of_link link)), link))
             (all_links find_note existing new_links))
   \<and> (find_sub content meetings_header = None \<longrightarrow>
        (\<exists>ps. subseq ps (sort_key fst mf) \<and> sorted (map fst ps)
           \<and> update_daily_note_content find_note mf content
               = rstrip content @ [nl, nl] @ meetings_header @ [nl, nl]
                 @ join_nl (map (\<lambda>m. link_of_stem (path_stem (snd m))) ps) @ [nl]))
   \<and> filter (\<lambda>m. fst m = k) (sort_key fst mf) = filter (\<lambda>m. fst m = k) mf
   \<and> sorted (map fst (sort_key fst (foldl keep_first [] es)))
   \<and> filter (\<lambda>e. fst e = k) (sort_key fst (foldl keep_first [] es))
       = filter (\<lambda>e. fst e = k) (foldl keep_first [] es)
   \<and> (search_section True content = None \<longrightarrow>
        create_daily_note start_time_of new_note_text (Some content) es
          = content @ [nl] @ planner_meetings_header @ [nl, nl]
            @ join_nl (list_items (sort_key fst es)) @ [nl])
   \<and> sorted (map fst (sort_key fst es))
   \<and> filter (\<lambda>e. fst e = k) (sort_key fst es) = filter (\<lambda>e. fst e = k) es
   \<and> (sorted (map fst es) \<longrightarrow>
        create_daily_note start_time_of new_note_text None es
          = new_note_text @ concat (map (\<lambda>e. ''- '' @ snd e @ [nl]) es))
   \<and> (list_all (\<lambda>ev. dateTime (start ev) \<noteq> None) events \<longrightarrow>
        sorted (map fst (fst (foldl (collect_entry h d dt) ([], fs)
                  (sort_key get_sort_key events)))))
   \<and> get_meeting_start_time None \<le> t
   \<and> update_daily_note_content listed_notes [(''08:30'', ''MEETINGS/W.md'')] listed_note
       = meetings_header @ [nl, nl] @ ''- [[Y]]'' @ [nl] @ ''- [[W]]'' @ [nl] @ ''- [[Z]]'' @ [nl]
         @ ''- [[X]]''
   \<and> create_daily_note listed_times [] (Some planner_listed_note) [(''08:30'', ''[[W]]'')]
       = planner_meetings_header @ [nl, nl] @ ''- [[Y]]'' @ [nl] @ ''- [[W]]'' @ [nl]
         @ ''- [[Z]]'' @ [nl] @ ''- [[X]]'' @ [nl]"
proof -
  have a: "get_meeting_start_time None \<le> t"
    by (simp add: get_meeting_start_time_def)
  have b: "update_daily_note_content listed_notes [(''08:30'', ''MEETINGS/W.md'')] listed_note
       = meetings_header @ [nl, nl] @ ''- [[Y]]'' @ [nl] @ ''- [[W]]'' @ [nl] @ ''- [[Z]]'' @ [nl]
         @ ''- [[X]]''"
    by code_simp
  have c: "create_daily_note listed_times [] (Some planner_listed_note) [(''08:30'', ''[[W]]'')]
       = planner_meetings_header @ [nl, nl] @ ''- [[Y]]'' @ [nl] @ ''- [[W]]'' @ [nl]
         @ ''- [[Z]]'' @ [nl] @ ''- [[X]]'' @ [nl]"
    by code_simp
  have d: "\<exists>ps. subseq ps (sort_key fst mf) \<and> sorted (map fst ps)
           \<and> update_daily_note_content find_note mf content
               = rstrip content @ [nl, nl] @ meetings_header @ [nl, nl]
                 @ join_nl (map (\<lambda>m. link_of_stem (path_stem (snd m))) ps) @ [nl]"
    if n: "find_sub content meetings_header = None"
  proof -
    obtain ps where p: "subseq ps (sort_key fst mf)" "sorted (map fst ps)"
      "new_meeting_links mf = map (\<lambda>m. link_of_stem (path_stem (snd m))) ps"
      using new_meeting_links_ordered by blast
    have "update_daily_note_content find_note mf content
               = rstrip content @ [nl, nl] @ meetings_header @ [nl, nl]
                 @ join_nl (map (\<lambda>m. link_of_stem (path_stem (snd m))) ps) @ [nl]"
      using n p(3) by (simp add: update_daily_note_content_def)
    with p(1,2) show ?thesis by blast
  qed
  have e: "create_daily_note start_time_of new_note_text (Some content) es
          = content @ [nl] @ planner_meetings_header @ [nl, nl]
            @ join_nl (list_items (sort_key fst es)) @ [nl]"
    if "search_section True content = None"
    using that by (simp add: create_daily_note_def)
  have f: "create_daily_note start_time_of new_note_text None es
          = new_note_text @ concat (map (\<lambda>e. ''- '' @ snd e @ [nl]) es)"
    by (simp add: create_daily_note_def)
  have g: "sorted (map fst (fst (foldl (collect_entry h d dt) ([], fs)
                  (sort_key get_sort_key events))))"
    if "list_all (\<lambda>ev. dateTime (start ev) \<noteq> None) events"
    using that by (rule run_entries_sorted)
  show ?thesis
    using all_links_sorted [of find_note existing new_links] a b c d e f g
    by (simp add: sort_key_stable)
qed

theorem merged_links_ordered_witness:
  "find_sub plain_note meetings_header = None
   \<and> search_section True plain_note = None
   \<and> sorted (map fst standup_entries)
   \<and> list_all (\<lambda>ev. dateTime (start ev) \<noteq> None) [standup_am, standup_pm]
   \<and> all_links listed_notes [''- [[X]]'', ''- [[Y]]'', ''- [[Z]]''] [''- [[W]]'']
     = [''- [[Y]]'', ''- [[W]]'', ''- [[Z]]'', ''- [[X]]'']
   \<and> sorted [([], ''- [[Y]]''), (''08:30'', ''- [[W]]''), (''09:00'', ''- [[Z]]''),
              (''10:00'', ''- [[X]]'')]
   \<and> sort_key fst (foldl keep_first []
         [(''10:00'', ''[[X]]''), ([], ''[[Y]]''), (''09:00'', ''[[Z]]''), (''08:30'', ''[[W]]'')])
       = [([], ''[[Y]]''), (''08:30'', ''[[W]]''), (''09:00'', ''[[Z]]''), (''10:00'', ''[[X]]'')]
   \<and> create_daily_note listed_times note_head (Some plain_note)
         [(''10:00'', ''[[X]]''), ([], ''[[Y]]''), (''09:00'', ''[[Z]]''), (''08:30'', ''[[W]]'')]
       = plain_note @ [nl] @ planner_meetings_header @ [nl, nl] @ ''- [[Y]]'' @ [nl]
         @ ''- [[W]]'' @ [nl] @ ''- [[Z]]'' @ [nl] @ ''- [[X]]'' @ [nl]
   \<and> update_daily_note_content listed_notes retro_demo_files plain_note
       = ''Notes'' @ [nl, nl] @ unsorted_note
   \<and> create_daily_note listed_times note_head None standup_entries = note_head @ standup_twice
   \<and> sorted (map fst (fst (foldl (collect_entry host0 ''2026-02-26'' feb26) ([], Map.empty)
                  (sort_key get_sort_key [standup_am, standup_pm]))))"
proof -
  have a: "all_links listed_notes [''- [[X]]'', ''- [[Y]]'', ''- [[Z]]''] [''- [[W]]'']
     = [''- [[Y]]'', ''- [[W]]'', ''- [[Z]]'', ''- [[X]]'']"
    by code_simp
  have b: "map (\<lambda>link. (get_meeting_start_time (listed_notes (stem_of_link link)), link))
      [''- [[Y]]'', ''- [[W]]'', ''- [[Z]]'', ''- [[X]]'']
     = [([], ''- [[Y]]''), (''08:30'', ''- [[W]]''), (''09:00'', ''- [[Z]]''), (''10:00'', ''- [[X]]'')]"
    by code_simp
  have c: "sort_key fst (foldl keep_first []
         [(''10:00'', ''[[X]]''), ([], ''[[Y]]''), (''09:00'', ''[[Z]]''), (''08:30'', ''[[W]]'')])
       = [([], ''[[Y]]''), (''08:30'', ''[[W]]''), (''09:00'', ''[[Z]]''), (''10:00'', ''[[X]]'')]"
    by code_simp
  have d: "find_sub plain_note meetings_header = None" by code_simp
  have e: "search_section True plain_note = None" by code_simp
  have f: "join_nl (list_items (sort_key fst
         [(''10:00'', ''[[X]]''), ([], ''[[Y]]''), (''09:00'', ''[[Z]]''), (''08:30'', ''[[W]]'')]))
       = ''- [[Y]]'' @ [nl] @ ''- [[W]]'' @ [nl] @ ''- [[Z]]'' @ [nl] @ ''- [[X]]''"
    by code_simp
  have g: "update_daily_note_content listed_notes retro_demo_files plain_note
       = ''Notes'' @ [nl, nl] @ unsorted_note"
    by code_simp
  have h: "sorted (map fst standup_entries)"
    by (simp add: standup_entries_def)
  have i: "list_all (\<lambda>ev. dateTime (start ev) \<noteq> None) [standup_am, standup_pm]"
    by (simp add: standup_am_def standup_pm_def)
  have j: "concat (map (\<lambda>e. ''- '' @ snd e @ [nl]) standup_entries) = standup_twice"
    by (simp add: standup_entries_def standup_twice_def)
  show ?thesis
    using merged_links_ordered [where find_note = listed_notes
        and existing = "[''- [[X]]'', ''- [[Y]]'', ''- [[Z]]'']" and new_links = "[''- [[W]]'']"
        and content = plain_note and mf = retro_demo_files
        and es = "[(''10:00'', ''[[X]]''), ([], ''[[Y]]''), (''09:00'', ''[[Z]]''), (''08:30'', ''[[W]]'')]"
        and start_time_of = listed_times and new_note_text = note_head
        and events = "[standup_am, standup_pm]" and h = host0 and d = "''2026-02-26''"
        and dt = feb26 and fs = Map.empty]
      merged_links_ordered [where content = plain_note and es = standup_entries
        and start_time_of = listed_times and new_note_text = note_head]
    unfolding a b c f j using d e g h i by simp
qed

end
